theory Spec2Isabelle
  imports Main "HOL-Library.Word" "HOL-Library.Signed_Division"
begin

section \<open>The value model of the interpreter\<close>

text \<open>
  \<^verbatim>\<open>struct value\<close> carries a type discriminant, a source location and a payload. The
  structure itself is declared outside \<^verbatim>\<open>builtin.c\<close>; the fields used there are
  \<^verbatim>\<open>type\<close>, \<^verbatim>\<open>loc\<close>, \<^verbatim>\<open>car\<close>/\<^verbatim>\<open>cdr\<close>, \<^verbatim>\<open>i\<close>, and \<^verbatim>\<open>param\<close>/\<^verbatim>\<open>body\<close>/\<^verbatim>\<open>env\<close>.
  Values are immutable trees here; the only objects that are mutated in place are the
  binding frames of the environment, which live in an explicit store and are referred to
  by address.
\<close>

type_synonym loc = nat
type_synonym addr = nat

datatype vtype =
    VAL_NIL | VAL_TRUE | VAL_SYMBOL | VAL_INT | VAL_CELL
  | VAL_FUNCTION | VAL_MACRO | VAL_BUILTIN | VAL_ERROR

text \<open>The C functions registered by \<^verbatim>\<open>load_builtins\<close>, in the order of registration.\<close>

datatype native =
    NProgn | NMacro | NPrintln | NPrint | NWhile | NQuote | NCons | NSetq | NSet
  | NCar | NCdr | NFn | NIf | NAdd | NSub | NMul | NDiv | NEq | NLess

datatype val =
    Nil_val loc
  | True_val loc
  | Symbol loc string
  | Integer loc "32 word"
  | Cell loc val val
  | Function loc val val addr
  | Macro loc val val addr
  | Builtin loc native
  | Error loc string

fun type_of :: "val \<Rightarrow> vtype" where
  "type_of (Nil_val l) = VAL_NIL"
| "type_of (True_val l) = VAL_TRUE"
| "type_of (Symbol l x) = VAL_SYMBOL"
| "type_of (Integer l i) = VAL_INT"
| "type_of (Cell l a d) = VAL_CELL"
| "type_of (Function l p b e) = VAL_FUNCTION"
| "type_of (Macro l p b e) = VAL_MACRO"
| "type_of (Builtin l f) = VAL_BUILTIN"
| "type_of (Error l m) = VAL_ERROR"

fun loc_of :: "val \<Rightarrow> loc" where
  "loc_of (Nil_val l) = l"
| "loc_of (True_val l) = l"
| "loc_of (Symbol l x) = l"
| "loc_of (Integer l i) = l"
| "loc_of (Cell l a d) = l"
| "loc_of (Function l p b e) = l"
| "loc_of (Macro l p b e) = l"
| "loc_of (Builtin l f) = l"
| "loc_of (Error l m) = l"

text \<open>
  Reading \<^verbatim>\<open>v->car\<close> or \<^verbatim>\<open>v->cdr\<close> of a value that is not a cell reads a union member
  that was never written: the model has no value for it.
\<close>

fun car :: "val \<Rightarrow> val option" where
  "car (Cell l a d) = Some a"
| "car v = None"

fun cdr :: "val \<Rightarrow> val option" where
  "cdr (Cell l a d) = Some d"
| "cdr v = None"

text \<open>
  The outcome of running a piece of the interpreter: a result; no defined result of the
  C code (a read of a missing field or of an uninitialised variable, a trapping
  division, a result that depends on an order of evaluation that C leaves open); or an
  evaluation that did not finish within the given fuel.
\<close>

datatype 'a outcome = Ok 'a | Undefined | OutOfFuel

section \<open>Helpers declared outside builtin.c\<close>

text \<open>
  Modelled from the spec: \<^verbatim>\<open>error(loc, fmt, ...)\<close> is in \<^verbatim>\<open>error.h\<close>. It builds the
  sentinel Error value carrying the formatted message and the location; it is returned,
  never thrown.
\<close>

definition error :: "loc \<Rightarrow> string \<Rightarrow> val" where
  "error l msg = Error l msg"

text \<open>
  Modelled from the spec: the two-argument \<^verbatim>\<open>cons\<close> and the one-argument \<^verbatim>\<open>quote\<close>
  are in \<^verbatim>\<open>util.h\<close>. \<^verbatim>\<open>cons\<close> builds a new cell; \<^verbatim>\<open>quote(v)\<close> builds the form
  \<^verbatim>\<open>(quote v)\<close>. Neither takes a location, and which one the new nodes carry is not
  described: that of the value they wrap is taken.
\<close>

definition cons :: "val \<Rightarrow> val \<Rightarrow> val" where
  "cons a d = Cell (loc_of a) a d"

definition quote :: "val \<Rightarrow> val" where
  "quote v = cons (Symbol (loc_of v) ''quote'') (cons v (Nil_val (loc_of v)))"

text \<open>
  Modelled from the spec: the macro \<^verbatim>\<open>IS_LIST\<close> is not in \<^verbatim>\<open>builtin.c\<close>. A value is
  list-shaped when it is the empty list or a cell.
\<close>

definition IS_LIST :: "val \<Rightarrow> bool" where
  "IS_LIST v = (type_of v = VAL_NIL \<or> type_of v = VAL_CELL)"

text \<open>
  Modelled from the spec: the table behind \<^verbatim>\<open>TYPE_NAME\<close> is not in \<^verbatim>\<open>builtin.c\<close>.
  The names are those of the discriminants in the spec's data model.
\<close>

fun TYPE_NAME :: "vtype \<Rightarrow> string" where
  "TYPE_NAME VAL_NIL = ''Nil''"
| "TYPE_NAME VAL_TRUE = ''True''"
| "TYPE_NAME VAL_SYMBOL = ''Symbol''"
| "TYPE_NAME VAL_INT = ''Integer''"
| "TYPE_NAME VAL_CELL = ''Cell''"
| "TYPE_NAME VAL_FUNCTION = ''Function''"
| "TYPE_NAME VAL_MACRO = ''Macro''"
| "TYPE_NAME VAL_BUILTIN = ''NativeOperator''"
| "TYPE_NAME VAL_ERROR = ''Error''"

text \<open>Modelled from the spec: \<^verbatim>\<open>IS_VOWEL\<close> tests one character, in either case.\<close>

definition IS_VOWEL :: "char \<Rightarrow> bool" where
  "IS_VOWEL c = (c \<in> set ''aeiouAEIOU'')"

section \<open>The environment\<close>

text \<open>
  Modelled from the spec: the environment is a chain of binding frames; \<^verbatim>\<open>find\<close> and
  \<^verbatim>\<open>add_variable\<close> are in \<^verbatim>\<open>eval.h\<close>. A frame holds its bindings in the order they
  were added and the address of its parent (none for the root frame). Frames are never
  removed and a binding never moves, so a binding cell is identified by the address of
  its frame and its position there. The store is the list of all frames; an environment
  pointer is the address of its innermost frame.
\<close>

record frame =
  binds :: "(string \<times> val) list"
  parent :: "addr option"

record state =
  frames :: "frame list"
  stdout :: string

type_synonym binding = "addr \<times> nat"

text \<open>The newest binding of a name in one frame: a later binding shadows an earlier one.\<close>

fun find_frame :: "(string \<times> val) list \<Rightarrow> string \<Rightarrow> nat option" where
  "find_frame [] x = None"
| "find_frame (b # bs) x =
     (case find_frame bs x of
        Some i \<Rightarrow> Some (Suc i)
      | None \<Rightarrow> if fst b = x then Some 0 else None)"

text \<open>
  \<^verbatim>\<open>find(env, sym)\<close>: search from the innermost frame outwards and return the binding
  cell itself, or nothing. A parent is always allocated before its children, which is
  what makes the walk end.
\<close>

function find_env :: "frame list \<Rightarrow> addr \<Rightarrow> string \<Rightarrow> binding option" where
  "find_env fs e x =
     (if e < length fs then
        (case find_frame (binds (fs ! e)) x of
           Some i \<Rightarrow> Some (e, i)
         | None \<Rightarrow>
            (case parent (fs ! e) of
               None \<Rightarrow> None
             | Some p \<Rightarrow> if p < e then find_env fs p x else None))
      else None)"
  by pat_completeness auto
termination
  by (relation "measure (\<lambda>(fs, e, x). e)") auto

declare find_env.simps [simp del]

text \<open>Reading and writing the value slot of a binding cell (\<^verbatim>\<open>bind->cdr\<close>).\<close>

definition slot :: "state \<Rightarrow> binding \<Rightarrow> val" where
  "slot s b = snd (binds (frames s ! fst b) ! snd b)"

definition set_slot :: "binding \<Rightarrow> val \<Rightarrow> state \<Rightarrow> state" where
  "set_slot b v s =
     s\<lparr>frames := (frames s)[fst b :=
          (frames s ! fst b)\<lparr>binds := (binds (frames s ! fst b))[snd b :=
             (fst (binds (frames s ! fst b) ! snd b), v)]\<rparr>]\<rparr>"

text \<open>
  \<^verbatim>\<open>add_variable(env, sym, value)\<close>: a new binding in the innermost frame of \<open>env\<close>, with
  no search for an existing one. What it returns is not described (\<^verbatim>\<open>builtin_fn\<close> returns
  it, \<^verbatim>\<open>builtin_set\<close> ignores it): the value it bound is taken.
\<close>

definition add_variable :: "addr \<Rightarrow> string \<Rightarrow> val \<Rightarrow> state \<Rightarrow> val \<times> state" where
  "add_variable env x v s =
     (v, s\<lparr>frames := (frames s)[env :=
          (frames s ! env)\<lparr>binds := binds (frames s ! env) @ [(x, v)]\<rparr>]\<rparr>)"

text \<open>What a symbol currently denotes when looked up from \<open>env\<close>.\<close>

definition lookup :: "state \<Rightarrow> addr \<Rightarrow> string \<Rightarrow> val option" where
  "lookup s env x = map_option (slot s) (find_env (frames s) env x)"

section \<open>Sequencing helpers of the evaluator\<close>

text \<open>
  The built-in operators call back into the evaluator. They are written against an
  arbitrary evaluator \<open>ev\<close> (the C function \<^verbatim>\<open>eval\<close>), which is tied to the concrete
  one further down.
\<close>

type_synonym evaluator = "addr \<Rightarrow> val \<Rightarrow> state \<Rightarrow> (val \<times> state) outcome"

text \<open>
  Modelled from the spec: \<^verbatim>\<open>eval_list\<close> is in \<^verbatim>\<open>eval.h\<close>. It builds a new list of the
  results in the original order and stops at the first Error result, which it returns in
  place of the list. What it does on a list that does not end in the empty list is not
  described.
\<close>

fun eval_list :: "evaluator \<Rightarrow> addr \<Rightarrow> val \<Rightarrow> state \<Rightarrow> (val \<times> state) outcome" where
  "eval_list ev env (Cell l e rest) s =
     (case ev env e s of
        Ok (v, s1) \<Rightarrow>
          if type_of v = VAL_ERROR then Ok (v, s1)
          else (case eval_list ev env rest s1 of
                  Ok (vs, s2) \<Rightarrow>
                    if type_of vs = VAL_ERROR then Ok (vs, s2) else Ok (Cell l v vs, s2)
                | Undefined \<Rightarrow> Undefined
                | OutOfFuel \<Rightarrow> OutOfFuel)
      | Undefined \<Rightarrow> Undefined
      | OutOfFuel \<Rightarrow> OutOfFuel)"
| "eval_list ev env (Nil_val l) s = Ok (Nil_val l, s)"
| "eval_list ev env v s = Undefined"

text \<open>
  Modelled from the spec: \<^verbatim>\<open>progn\<close> is in \<^verbatim>\<open>eval.h\<close>. It evaluates the body in order,
  returns the last result and stops at the first Error result. The result of an empty
  body is an uninitialised accumulator.
\<close>

fun progn :: "evaluator \<Rightarrow> addr \<Rightarrow> val \<Rightarrow> state \<Rightarrow> (val \<times> state) outcome" where
  "progn ev env (Cell l e rest) s =
     (case ev env e s of
        Ok (v, s1) \<Rightarrow>
          if type_of v = VAL_ERROR then Ok (v, s1)
          else (case rest of
                  Cell l' e' rest' \<Rightarrow> progn ev env rest s1
                | _ \<Rightarrow> Ok (v, s1))
      | Undefined \<Rightarrow> Undefined
      | OutOfFuel \<Rightarrow> OutOfFuel)"
| "progn ev env v s = Undefined"

section \<open>builtin.c\<close>

subsection \<open>make_function, fn and macro\<close>

text \<open>
  The loop of \<^verbatim>\<open>make_function\<close> over the parameters: the Error it returns at the first
  parameter that is not a symbol, or nothing when it runs to the end of the cells.
\<close>

fun check_params :: "val \<Rightarrow> val option" where
  "check_params (Cell l a d) =
     (if type_of a = VAL_SYMBOL then check_params d
      else Some (error (loc_of a)
             (''parameter name must be a symbol (this is ''
              @ (if IS_VOWEL (hd (TYPE_NAME (type_of a))) then ''an'' else ''a'')
              @ '' '' @ TYPE_NAME (type_of a) @ '')'')))"
| "check_params p = None"

text \<open>
  \<^verbatim>\<open>make_function(env, v, type)\<close>. The call of \<^verbatim>\<open>error\<close> for a malformed definition
  is a statement of its own in the source: the value it builds is bound to \<open>dropped\<close>
  here and not used. The assertion on \<open>type\<close> aborts for any other type.
\<close>

definition make_function :: "addr \<Rightarrow> val \<Rightarrow> vtype \<Rightarrow> val outcome" where
  "make_function env v ty =
     (if ty \<noteq> VAL_FUNCTION \<and> ty \<noteq> VAL_MACRO then Undefined
      else case v of
        Cell l a d \<Rightarrow>
          (let dropped = (if \<not> IS_LIST a \<or> \<not> IS_LIST d
                          then [error l ''malformed function definition''] else [])
           in case check_params a of
                Some e \<Rightarrow> Ok e
              | None \<Rightarrow>
                  Ok (if ty = VAL_FUNCTION then Function (loc_of d) a d env
                      else Macro (loc_of d) a d env))
      | _ \<Rightarrow> Undefined)"

definition builtin_fn :: "addr \<Rightarrow> val \<Rightarrow> state \<Rightarrow> (val \<times> state) outcome" where
  "builtin_fn env v s =
     (case v of
        Cell l a d \<Rightarrow>
          if type_of d \<noteq> VAL_CELL then Ok (error l ''missing list of parameters'', s)
          else (case a of
                  Symbol la x \<Rightarrow>
                    (case make_function env d VAL_FUNCTION of
                       Ok f \<Rightarrow> Ok (add_variable env x f s)
                     | Undefined \<Rightarrow> Undefined
                     | OutOfFuel \<Rightarrow> OutOfFuel)
                | _ \<Rightarrow>
                    (case make_function env v VAL_FUNCTION of
                       Ok f \<Rightarrow> Ok (f, s)
                     | Undefined \<Rightarrow> Undefined
                     | OutOfFuel \<Rightarrow> OutOfFuel))
      | _ \<Rightarrow> Undefined)"

definition builtin_macro :: "addr \<Rightarrow> val \<Rightarrow> state \<Rightarrow> (val \<times> state) outcome" where
  "builtin_macro env v s =
     (case make_function env v VAL_MACRO of
        Ok f \<Rightarrow> Ok (f, s)
      | Undefined \<Rightarrow> Undefined
      | OutOfFuel \<Rightarrow> OutOfFuel)"

subsection \<open>print and println\<close>

text \<open>
  \<^verbatim>\<open>print_value(stdout, v)\<close> belongs to the printer, which is outside this file: it is a
  parameter. It is given the value and the text written so far, and gives back its
  result value (an Error when writing fails) and the text after the call.
\<close>

type_synonym printer = "val \<Rightarrow> string \<Rightarrow> val \<times> string"

fun print_loop :: "printer \<Rightarrow> loc \<Rightarrow> val \<Rightarrow> string \<Rightarrow> (val \<times> string) outcome" where
  "print_loop pv l (Nil_val l') out = Ok (Nil_val l, out)"
| "print_loop pv l (Cell l' a d) out =
     (case pv a out of
        (e, out') \<Rightarrow> if type_of e = VAL_ERROR then Ok (e, out') else print_loop pv l d out')"
| "print_loop pv l p out = Undefined"

definition builtin_print ::
  "printer \<Rightarrow> evaluator \<Rightarrow> addr \<Rightarrow> val \<Rightarrow> state \<Rightarrow> (val \<times> state) outcome" where
  "builtin_print pv ev env list s =
     (case eval_list ev env list s of
        Ok (r, s1) \<Rightarrow>
          if type_of r = VAL_ERROR then Ok (r, s1)
          else (case print_loop pv (loc_of list) r (stdout s1) of
                  Ok (e, out') \<Rightarrow> Ok (e, s1\<lparr>stdout := out'\<rparr>)
                | Undefined \<Rightarrow> Undefined
                | OutOfFuel \<Rightarrow> OutOfFuel)
      | Undefined \<Rightarrow> Undefined
      | OutOfFuel \<Rightarrow> OutOfFuel)"

definition builtin_println ::
  "printer \<Rightarrow> evaluator \<Rightarrow> addr \<Rightarrow> val \<Rightarrow> state \<Rightarrow> (val \<times> state) outcome" where
  "builtin_println pv ev env v s =
     (case builtin_print pv ev env v s of
        Ok (r, s1) \<Rightarrow> Ok (r, s1\<lparr>stdout := stdout s1 @ [CHR 0x0A]\<rparr>)
      | Undefined \<Rightarrow> Undefined
      | OutOfFuel \<Rightarrow> OutOfFuel)"

subsection \<open>set and setq\<close>

text \<open>
  \<^verbatim>\<open>builtin_set\<close>: the binding is searched after the first argument is evaluated and
  before the second one is. \<^verbatim>\<open>find\<close> is described for symbols only; a first argument
  that evaluates to anything else has no outcome in the model.
\<close>

definition builtin_set :: "evaluator \<Rightarrow> addr \<Rightarrow> val \<Rightarrow> state \<Rightarrow> (val \<times> state) outcome" where
  "builtin_set ev env list s =
     (case list of
        Cell l a rest \<Rightarrow>
          (case ev env a s of
             Ok (symv, s1) \<Rightarrow>
               (case symv of
                  Symbol ls x \<Rightarrow>
                    (case find_env (frames s1) env x of
                       None \<Rightarrow>
                         (case rest of
                            Cell l' e rest' \<Rightarrow>
                              (case ev env e s1 of
                                 Ok (value, s2) \<Rightarrow> Ok (value, snd (add_variable env x value s2))
                               | Undefined \<Rightarrow> Undefined
                               | OutOfFuel \<Rightarrow> OutOfFuel)
                          | _ \<Rightarrow> Undefined)
                     | Some bind \<Rightarrow>
                         (case rest of
                            Cell l' e rest' \<Rightarrow>
                              (case ev env e s1 of
                                 Ok (value, s2) \<Rightarrow> Ok (value, set_slot bind value s2)
                               | Undefined \<Rightarrow> Undefined
                               | OutOfFuel \<Rightarrow> OutOfFuel)
                          | _ \<Rightarrow> Undefined))
                | _ \<Rightarrow> Undefined)
           | Undefined \<Rightarrow> Undefined
           | OutOfFuel \<Rightarrow> OutOfFuel)
      | _ \<Rightarrow> Undefined)"

definition builtin_setq :: "evaluator \<Rightarrow> addr \<Rightarrow> val \<Rightarrow> state \<Rightarrow> (val \<times> state) outcome" where
  "builtin_setq ev env list s =
     (case list of
        Cell l a d \<Rightarrow> builtin_set ev env (cons (quote a) d) s
      | _ \<Rightarrow> Undefined)"

subsection \<open>Arithmetic and comparison\<close>

text \<open>
  The macro \<^verbatim>\<open>ARITHMETIC(X)\<close> is instantiated with the four C operators. \<^verbatim>\<open>int\<close> is a
  32-bit two's-complement integer: \<^verbatim>\<open>+\<close>, \<^verbatim>\<open>-\<close> and \<^verbatim>\<open>*\<close> wrap around, \<^verbatim>\<open>/\<close> truncates
  towards zero and traps when the divisor is zero or the quotient does not fit.
\<close>

datatype arith_op = Plus | Minus | Times | Divide

fun op_name :: "arith_op \<Rightarrow> string" where
  "op_name Plus = ''+''"
| "op_name Minus = ''-''"
| "op_name Times = ''*''"
| "op_name Divide = ''/''"

fun apply_op :: "arith_op \<Rightarrow> 32 word \<Rightarrow> 32 word \<Rightarrow> 32 word option" where
  "apply_op Plus a b = Some (a + b)"
| "apply_op Minus a b = Some (a - b)"
| "apply_op Times a b = Some (a * b)"
| "apply_op Divide a b =
     (if b = 0 \<or> (a = - (2 ^ 31) \<and> b = - 1) then None
      else Some (word_of_int (sint a sdiv sint b)))"

text \<open>
  The Error that the arithmetic and comparison operators build for an argument \<open>a\<close> that
  is not an integer; \<open>opn\<close> is the operator as it appears in the message.
\<close>

definition numeric_error :: "string \<Rightarrow> val \<Rightarrow> val" where
  "numeric_error opn a =
     error (loc_of a)
       (''builtin `'' @ opn @ [CHR 0x27] @ '' takes only numeric arguments (got `''
        @ TYPE_NAME (type_of a) @ [CHR 0x27] @ '')'')"

text \<open>
  The loop of \<^verbatim>\<open>ARITHMETIC\<close> over the evaluated arguments, with its two locals: the
  accumulator \<^verbatim>\<open>sum\<close> and the flag \<^verbatim>\<open>first\<close>. \<open>l\<close> is \<^verbatim>\<open>list->loc\<close>.
\<close>

fun arithmetic_loop :: "arith_op \<Rightarrow> loc \<Rightarrow> val \<Rightarrow> 32 word \<Rightarrow> bool \<Rightarrow> val outcome" where
  "arithmetic_loop X l (Nil_val l') sumv first = Ok (Integer l sumv)"
| "arithmetic_loop X l (Error l' m) sumv first = Ok (Error l' m)"
| "arithmetic_loop X l (Cell l' a d) sumv first =
     (case a of
        Integer la i \<Rightarrow>
          if first then arithmetic_loop X l d i False
          else (case apply_op X sumv i of
                  Some r \<Rightarrow> arithmetic_loop X l d r False
                | None \<Rightarrow> Undefined)
      | _ \<Rightarrow> Ok (numeric_error (op_name X) a))"
| "arithmetic_loop X l v sumv first = Undefined"

definition ARITHMETIC ::
  "arith_op \<Rightarrow> evaluator \<Rightarrow> addr \<Rightarrow> val \<Rightarrow> state \<Rightarrow> (val \<times> state) outcome" where
  "ARITHMETIC X ev env list s =
     (case eval_list ev env list s of
        Ok (args, s1) \<Rightarrow>
          (case arithmetic_loop X (loc_of list) args 0 True of
             Ok r \<Rightarrow> Ok (r, s1)
           | Undefined \<Rightarrow> Undefined
           | OutOfFuel \<Rightarrow> OutOfFuel)
      | Undefined \<Rightarrow> Undefined
      | OutOfFuel \<Rightarrow> OutOfFuel)"

definition builtin_add :: "evaluator \<Rightarrow> addr \<Rightarrow> val \<Rightarrow> state \<Rightarrow> (val \<times> state) outcome" where
  "builtin_add = ARITHMETIC Plus"

definition builtin_sub :: "evaluator \<Rightarrow> addr \<Rightarrow> val \<Rightarrow> state \<Rightarrow> (val \<times> state) outcome" where
  "builtin_sub = ARITHMETIC Minus"

definition builtin_mul :: "evaluator \<Rightarrow> addr \<Rightarrow> val \<Rightarrow> state \<Rightarrow> (val \<times> state) outcome" where
  "builtin_mul = ARITHMETIC Times"

definition builtin_div :: "evaluator \<Rightarrow> addr \<Rightarrow> val \<Rightarrow> state \<Rightarrow> (val \<times> state) outcome" where
  "builtin_div = ARITHMETIC Divide"

fun eq_loop :: "loc \<Rightarrow> val \<Rightarrow> 32 word \<Rightarrow> bool \<Rightarrow> val outcome" where
  "eq_loop l (Nil_val l') sumv first = Ok (True_val l)"
| "eq_loop l (Error l' m) sumv first = Ok (Error l' m)"
| "eq_loop l (Cell l' a d) sumv first =
     (case a of
        Integer la i \<Rightarrow>
          if first then eq_loop l d i False
          else if i \<noteq> sumv then Ok (Nil_val l)
          else eq_loop l d sumv False
      | _ \<Rightarrow> Ok (numeric_error ''='' a))"
| "eq_loop l v sumv first = Undefined"

definition builtin_eq :: "evaluator \<Rightarrow> addr \<Rightarrow> val \<Rightarrow> state \<Rightarrow> (val \<times> state) outcome" where
  "builtin_eq ev env list s =
     (case eval_list ev env list s of
        Ok (args, s1) \<Rightarrow>
          (case eq_loop (loc_of list) args 0 True of
             Ok r \<Rightarrow> Ok (r, s1)
           | Undefined \<Rightarrow> Undefined
           | OutOfFuel \<Rightarrow> OutOfFuel)
      | Undefined \<Rightarrow> Undefined
      | OutOfFuel \<Rightarrow> OutOfFuel)"

fun less_loop :: "loc \<Rightarrow> val \<Rightarrow> 32 word \<Rightarrow> bool \<Rightarrow> val outcome" where
  "less_loop l (Nil_val l') sumv first = Ok (True_val l)"
| "less_loop l (Error l' m) sumv first = Ok (Error l' m)"
| "less_loop l (Cell l' a d) sumv first =
     (case a of
        Integer la i \<Rightarrow>
          if first then less_loop l d i False
          else if sumv \<le>s i then Ok (Nil_val l)
          else less_loop l d sumv False
      | _ \<Rightarrow> Ok (numeric_error ''<'' a))"
| "less_loop l v sumv first = Undefined"

definition builtin_less :: "evaluator \<Rightarrow> addr \<Rightarrow> val \<Rightarrow> state \<Rightarrow> (val \<times> state) outcome" where
  "builtin_less ev env v s =
     (case eval_list ev env v s of
        Ok (args, s1) \<Rightarrow>
          (case less_loop (loc_of v) args 0 True of
             Ok r \<Rightarrow> Ok (r, s1)
           | Undefined \<Rightarrow> Undefined
           | OutOfFuel \<Rightarrow> OutOfFuel)
      | Undefined \<Rightarrow> Undefined
      | OutOfFuel \<Rightarrow> OutOfFuel)"

subsection \<open>Control flow, quoting and cells\<close>

definition builtin_if :: "evaluator \<Rightarrow> addr \<Rightarrow> val \<Rightarrow> state \<Rightarrow> (val \<times> state) outcome" where
  "builtin_if ev env list s =
     (case list of
        Cell l c rest \<Rightarrow>
          (case ev env c s of
             Ok (cv, s1) \<Rightarrow>
               if type_of cv = VAL_TRUE then
                 (case rest of
                    Cell l' t els \<Rightarrow> ev env t s1
                  | _ \<Rightarrow> Undefined)
               else
                 (case rest of
                    Cell l' t els \<Rightarrow> progn ev env els s1
                  | _ \<Rightarrow> Undefined)
           | Undefined \<Rightarrow> Undefined
           | OutOfFuel \<Rightarrow> OutOfFuel)
      | _ \<Rightarrow> Undefined)"

definition builtin_quote :: "addr \<Rightarrow> val \<Rightarrow> state \<Rightarrow> (val \<times> state) outcome" where
  "builtin_quote env v s =
     (case v of
        Cell l a d \<Rightarrow> Ok (a, s)
      | _ \<Rightarrow> Undefined)"

text \<open>
  \<^verbatim>\<open>cons(eval(env, v->car), eval(env, v->cdr->car))\<close>: C leaves the order of the two
  calls open. \<open>eval_both\<close> runs two evaluations one after the other; \<open>builtin_cons\<close> has
  a result where the two orders give the same two values and the same state, and no
  outcome where they differ.
\<close>

definition eval_both ::
  "evaluator \<Rightarrow> addr \<Rightarrow> val \<Rightarrow> val \<Rightarrow> state \<Rightarrow> ((val \<times> val) \<times> state) outcome" where
  "eval_both ev env e1 e2 s =
     (case ev env e1 s of
        Ok (x, s1) \<Rightarrow>
          (case ev env e2 s1 of
             Ok (y, s2) \<Rightarrow> Ok ((x, y), s2)
           | Undefined \<Rightarrow> Undefined
           | OutOfFuel \<Rightarrow> OutOfFuel)
      | Undefined \<Rightarrow> Undefined
      | OutOfFuel \<Rightarrow> OutOfFuel)"

definition builtin_cons :: "evaluator \<Rightarrow> addr \<Rightarrow> val \<Rightarrow> state \<Rightarrow> (val \<times> state) outcome" where
  "builtin_cons ev env v s =
     (case v of
        Cell l a rest \<Rightarrow>
          (case rest of
             Cell l' b rest' \<Rightarrow>
               (case eval_both ev env a b s of
                  Ok ((x, y), s2) \<Rightarrow>
                    (case eval_both ev env b a s of
                       Ok ((y', x'), s2') \<Rightarrow>
                         if x' = x \<and> y' = y \<and> s2' = s2 then Ok (cons x y, s2)
                         else Undefined
                     | Undefined \<Rightarrow> Undefined
                     | OutOfFuel \<Rightarrow> OutOfFuel)
                | Undefined \<Rightarrow> Undefined
                | OutOfFuel \<Rightarrow> OutOfFuel)
           | _ \<Rightarrow> Undefined)
      | _ \<Rightarrow> Undefined)"

definition builtin_car :: "evaluator \<Rightarrow> addr \<Rightarrow> val \<Rightarrow> state \<Rightarrow> (val \<times> state) outcome" where
  "builtin_car ev env v s =
     (case v of
        Cell l a d \<Rightarrow>
          (case ev env a s of
             Ok (x, s1) \<Rightarrow> (case car x of Some r \<Rightarrow> Ok (r, s1) | None \<Rightarrow> Undefined)
           | Undefined \<Rightarrow> Undefined
           | OutOfFuel \<Rightarrow> OutOfFuel)
      | _ \<Rightarrow> Undefined)"

definition builtin_cdr :: "evaluator \<Rightarrow> addr \<Rightarrow> val \<Rightarrow> state \<Rightarrow> (val \<times> state) outcome" where
  "builtin_cdr ev env v s =
     (case v of
        Cell l a d \<Rightarrow>
          (case ev env a s of
             Ok (x, s1) \<Rightarrow> (case cdr x of Some r \<Rightarrow> Ok (r, s1) | None \<Rightarrow> Undefined)
           | Undefined \<Rightarrow> Undefined
           | OutOfFuel \<Rightarrow> OutOfFuel)
      | _ \<Rightarrow> Undefined)"

definition builtin_progn :: "evaluator \<Rightarrow> addr \<Rightarrow> val \<Rightarrow> state \<Rightarrow> (val \<times> state) outcome" where
  "builtin_progn ev env v s = progn ev env v s"

text \<open>
  The loop of \<^verbatim>\<open>builtin_while\<close>. The local \<^verbatim>\<open>r\<close> has no initial value: it is \<open>None\<close>
  until the body has run once, and returning it then is a read of an uninitialised
  variable. The loop may run forever; \<open>k\<close> bounds the number of tests of the condition.
\<close>

fun while_loop ::
  "nat \<Rightarrow> evaluator \<Rightarrow> addr \<Rightarrow> val \<Rightarrow> val option \<Rightarrow> state \<Rightarrow> (val \<times> state) outcome" where
  "while_loop 0 ev env v r s = OutOfFuel"
| "while_loop (Suc k) ev env v r s =
     (case v of
        Cell l c body \<Rightarrow>
          (case ev env c s of
             Ok (cv, s1) \<Rightarrow>
               if type_of cv = VAL_TRUE then
                 (case progn ev env body s1 of
                    Ok (r', s2) \<Rightarrow> while_loop k ev env v (Some r') s2
                  | Undefined \<Rightarrow> Undefined
                  | OutOfFuel \<Rightarrow> OutOfFuel)
               else (case r of Some rv \<Rightarrow> Ok (rv, s1) | None \<Rightarrow> Undefined)
           | Undefined \<Rightarrow> Undefined
           | OutOfFuel \<Rightarrow> OutOfFuel)
      | _ \<Rightarrow> Undefined)"

definition builtin_while ::
  "nat \<Rightarrow> evaluator \<Rightarrow> addr \<Rightarrow> val \<Rightarrow> state \<Rightarrow> (val \<times> state) outcome" where
  "builtin_while k ev env v s = while_loop k ev env v None s"

section \<open>The evaluator\<close>

text \<open>
  Modelled from the spec: \<^verbatim>\<open>eval\<close> is in \<^verbatim>\<open>eval.h\<close>. A symbol is looked up with
  \<^verbatim>\<open>find\<close> and is an Error when unbound; a cell applies what its first element
  evaluates to; every other value evaluates to itself. Evaluation may not end, so the
  functions take fuel: \<open>eval\<close> with fuel \<open>Suc n\<close> runs its callees with fuel \<open>n\<close>.
\<close>

text \<open>The table of \<^verbatim>\<open>load_builtins\<close>: which C function a native operator value runs.\<close>

fun call_builtin ::
  "printer \<Rightarrow> nat \<Rightarrow> evaluator \<Rightarrow> native \<Rightarrow> addr \<Rightarrow> val \<Rightarrow> state \<Rightarrow> (val \<times> state) outcome" where
  "call_builtin pv k ev NProgn env args s = builtin_progn ev env args s"
| "call_builtin pv k ev NMacro env args s = builtin_macro env args s"
| "call_builtin pv k ev NPrintln env args s = builtin_println pv ev env args s"
| "call_builtin pv k ev NPrint env args s = builtin_print pv ev env args s"
| "call_builtin pv k ev NWhile env args s = builtin_while k ev env args s"
| "call_builtin pv k ev NQuote env args s = builtin_quote env args s"
| "call_builtin pv k ev NCons env args s = builtin_cons ev env args s"
| "call_builtin pv k ev NSetq env args s = builtin_setq ev env args s"
| "call_builtin pv k ev NSet env args s = builtin_set ev env args s"
| "call_builtin pv k ev NCar env args s = builtin_car ev env args s"
| "call_builtin pv k ev NCdr env args s = builtin_cdr ev env args s"
| "call_builtin pv k ev NFn env args s = builtin_fn env args s"
| "call_builtin pv k ev NIf env args s = builtin_if ev env args s"
| "call_builtin pv k ev NAdd env args s = builtin_add ev env args s"
| "call_builtin pv k ev NSub env args s = builtin_sub ev env args s"
| "call_builtin pv k ev NMul env args s = builtin_mul ev env args s"
| "call_builtin pv k ev NDiv env args s = builtin_div ev env args s"
| "call_builtin pv k ev NEq env args s = builtin_eq ev env args s"
| "call_builtin pv k ev NLess env args s = builtin_less ev env args s"

text \<open>
  Modelled from the spec: positional binding of parameters to arguments. A call with
  fewer arguments than parameters is left open by the spec and has no outcome here.
\<close>

fun bind_params :: "val \<Rightarrow> val \<Rightarrow> (string \<times> val) list option" where
  "bind_params (Cell l (Symbol lx x) ps) (Cell l' a as) =
     map_option (\<lambda>bs. (x, a) # bs) (bind_params ps as)"
| "bind_params (Cell l p ps) as = None"
| "bind_params ps as = Some []"

text \<open>A new child frame of \<open>cenv\<close>; its address is the next free one.\<close>

definition new_frame :: "addr \<Rightarrow> (string \<times> val) list \<Rightarrow> state \<Rightarrow> addr \<times> state" where
  "new_frame cenv bs s =
     (length (frames s), s\<lparr>frames := frames s @ [\<lparr>binds = bs, parent = Some cenv\<rparr>]\<rparr>)"

fun eval :: "printer \<Rightarrow> nat \<Rightarrow> addr \<Rightarrow> val \<Rightarrow> state \<Rightarrow> (val \<times> state) outcome" where
  "eval pv 0 env v s = OutOfFuel"
| "eval pv (Suc n) env v s =
     (case v of
        Symbol l x \<Rightarrow>
          (case find_env (frames s) env x of
             Some b \<Rightarrow> Ok (slot s b, s)
           | None \<Rightarrow> Ok (error l (''unbound symbol `'' @ x @ [CHR 0x27]), s))
      | Cell l f args \<Rightarrow>
          (case eval pv n env f s of
             Ok (fv, s1) \<Rightarrow>
               (case fv of
                  Builtin lf b \<Rightarrow> call_builtin pv n (eval pv n) b env args s1
                | Function lf ps body cenv \<Rightarrow>
                    (case eval_list (eval pv n) env args s1 of
                       Ok (vs, s2) \<Rightarrow>
                         if type_of vs = VAL_ERROR then Ok (vs, s2)
                         else (case bind_params ps vs of
                                 Some bs \<Rightarrow>
                                   (case new_frame cenv bs s2 of
                                      (env', s3) \<Rightarrow> progn (eval pv n) env' body s3)
                               | None \<Rightarrow> Undefined)
                     | Undefined \<Rightarrow> Undefined
                     | OutOfFuel \<Rightarrow> OutOfFuel)
                | Macro lf ps body cenv \<Rightarrow>
                    (case bind_params ps args of
                       Some bs \<Rightarrow>
                         (case new_frame cenv bs s1 of
                            (env', s3) \<Rightarrow> progn (eval pv n) env' body s3)
                     | None \<Rightarrow> Undefined)
                | _ \<Rightarrow> Ok (error l ''not callable'', s1))
           | Undefined \<Rightarrow> Undefined
           | OutOfFuel \<Rightarrow> OutOfFuel)
      | _ \<Rightarrow> Ok (v, s))"

text \<open>
  Modelled from the spec: \<^verbatim>\<open>add_builtin(env, name, f)\<close> binds \<open>name\<close> to the native
  operator \<open>f\<close> in \<open>env\<close>. \<^verbatim>\<open>load_builtins\<close> is in \<^verbatim>\<open>builtin.c\<close>.
\<close>

definition add_builtin :: "addr \<Rightarrow> string \<Rightarrow> native \<Rightarrow> state \<Rightarrow> state" where
  "add_builtin env name f s = snd (add_variable env name (Builtin 0 f) s)"

definition load_builtins :: "addr \<Rightarrow> state \<Rightarrow> state" where
  "load_builtins env s =
     fold (\<lambda>(name, f). add_builtin env name f)
       [(''progn'', NProgn), (''macro'', NMacro), (''println'', NPrintln),
        (''print'', NPrint), (''while'', NWhile), (''quote'', NQuote),
        (''cons'', NCons), (''setq'', NSetq), (''set'', NSet), (''car'', NCar),
        (''cdr'', NCdr), (''fn'', NFn), (''if'', NIf), (''+'', NAdd), (''-'', NSub),
        (''*'', NMul), (''/'', NDiv), (''='', NEq), (''<'', NLess)] s"

text \<open>A fresh root environment: one empty frame at address 0, nothing printed yet.\<close>

definition root_state :: state where
  "root_state = load_builtins 0 \<lparr>frames = [\<lparr>binds = [], parent = None\<rparr>], stdout = []\<rparr>"

section \<open>Vocabulary of the properties\<close>

text \<open>
  Nothing below is part of the interpreter: these definitions name the inputs the
  properties speak about (argument lists, example programs, example states).
\<close>

text \<open>A proper list of the given elements, and the form \<^verbatim>\<open>(f arg ...)\<close>.\<close>

definition list_val :: "val list \<Rightarrow> val" where
  "list_val xs = foldr (\<lambda>a d. Cell 0 a d) xs (Nil_val 0)"

definition call :: "string \<Rightarrow> val list \<Rightarrow> val" where
  "call f args = Cell 0 (Symbol 0 f) (list_val args)"

text \<open>The integers of a proper list all of whose elements are Integer values.\<close>

fun int_args :: "val \<Rightarrow> 32 word list option" where
  "int_args (Nil_val l) = Some []"
| "int_args (Cell l (Integer la i) d) = map_option ((#) i) (int_args d)"
| "int_args v = None"

text \<open>
  The leading Integer values of a list and the first element that is not an Integer,
  when there is one.
\<close>

fun leading_ints :: "val \<Rightarrow> (32 word list \<times> val) option" where
  "leading_ints (Cell l a d) =
     (case a of
        Integer la i \<Rightarrow> map_option (\<lambda>(ns, b). (i # ns, b)) (leading_ints d)
      | _ \<Rightarrow> Some ([], a))"
| "leading_ints v = None"

text \<open>A left fold with a C operator that may trap; \<open>None\<close> when a step traps.\<close>

fun fold_checked :: "arith_op \<Rightarrow> 32 word \<Rightarrow> 32 word list \<Rightarrow> 32 word option" where
  "fold_checked X acc [] = Some acc"
| "fold_checked X acc (n # ns) =
     (case apply_op X acc n of Some r \<Rightarrow> fold_checked X r ns | None \<Rightarrow> None)"

text \<open>
  No step of the left fold of C's division, started at \<open>acc\<close>, divides by zero or divides
  the least integer by \<open>-1\<close>. The quotient is signed division truncating towards zero.
\<close>

fun no_trap :: "32 word \<Rightarrow> 32 word list \<Rightarrow> bool" where
  "no_trap acc [] = True"
| "no_trap acc (n # ns) =
     (n \<noteq> 0 \<and> (acc \<noteq> - (2 ^ 31) \<or> n \<noteq> - 1)
      \<and> no_trap (word_of_int (sint acc sdiv sint n)) ns)"

text \<open>
  What the spec says of \<^verbatim>\<open>setq\<close>, written without any evaluation of the symbol: the
  value expression is evaluated, and the name is bound or its binding updated.
\<close>

definition setq_spec ::
  "evaluator \<Rightarrow> addr \<Rightarrow> string \<Rightarrow> val \<Rightarrow> state \<Rightarrow> (val \<times> state) outcome" where
  "setq_spec ev env x e s =
     (case ev env e s of
        Ok (v, s2) \<Rightarrow>
          (case find_env (frames s) env x of
             None \<Rightarrow> Ok (v, snd (add_variable env x v s2))
           | Some b \<Rightarrow> Ok (v, set_slot b v s2))
      | Undefined \<Rightarrow> Undefined
      | OutOfFuel \<Rightarrow> OutOfFuel)"

text \<open>A printer that writes the type name of the value and never fails.\<close>

definition plain_printer :: printer where
  "plain_printer v out = (Nil_val 0, out @ TYPE_NAME (type_of v))"

text \<open>An evaluator that has no outcome on the symbol \<open>x\<close> and is \<open>ev\<close> everywhere else.\<close>

definition trapping_on :: "string \<Rightarrow> evaluator \<Rightarrow> evaluator" where
  "trapping_on x ev env v s =
     (case v of
        Symbol l y \<Rightarrow> if y = x then Undefined else ev env v s
      | _ \<Rightarrow> ev env v s)"

text \<open>Example states: the root state with one more binding, and a child frame of it.\<close>

definition with_binding :: "string \<Rightarrow> val \<Rightarrow> state" where
  "with_binding x v = snd (add_variable 0 x v root_state)"


text \<open>The Error value that evaluating the unbound symbol \<^verbatim>\<open>zz\<close> gives.\<close>

definition unbound_zz :: val where
  "unbound_zz = Error 0 (''unbound symbol `zz'' @ [CHR 0x27])"

text \<open>
  \<^verbatim>\<open>(while (car p) (setq p (cons zz 1)) 7)\<close>: its condition, its body, and the program
  that first binds \<^verbatim>\<open>p\<close> to a cell whose first element is True.
\<close>

definition loop_cond :: val where
  "loop_cond = call ''car'' [Symbol 0 ''p'']"

definition loop_body :: val where
  "loop_body =
     list_val [call ''setq'' [Symbol 0 ''p'', call ''cons'' [Symbol 0 ''zz'', Integer 0 1]],
               Integer 0 7]"

definition while_example :: val where
  "while_example =
     call ''progn''
       [call ''setq'' [Symbol 0 ''p'', call ''cons'' [True_val 0, Integer 0 0]],
        Cell 0 (Symbol 0 ''while'') (Cell 0 loop_cond loop_body)]"

text \<open>
  A run of the loop, one entry for each iteration: the value of the condition, the state
  after the condition, the value of the body, the state after the body. \<open>iterations\<close>
  says that the entries are what the evaluator gives, one after the other from the
  state \<open>s\<close>, each with a True condition; \<open>end_state\<close> is the state after the last
  iteration and \<open>last_value\<close> the value of the last body (\<open>ro\<close> when there is none).
\<close>

type_synonym iteration = "val \<times> state \<times> val \<times> state"

fun iterations ::
  "evaluator \<Rightarrow> addr \<Rightarrow> val \<Rightarrow> val \<Rightarrow> state \<Rightarrow> iteration list \<Rightarrow> bool" where
  "iterations ev env c body s [] = True"
| "iterations ev env c body s ((cv, s1, r, s2) # tr) =
     (ev env c s = Ok (cv, s1) \<and> type_of cv = VAL_TRUE \<and> progn ev env body s1 = Ok (r, s2)
      \<and> iterations ev env c body s2 tr)"

fun end_state :: "state \<Rightarrow> iteration list \<Rightarrow> state" where
  "end_state s [] = s"
| "end_state s ((cv, s1, r, s2) # tr) = end_state s2 tr"

fun last_value :: "val option \<Rightarrow> iteration list \<Rightarrow> val option" where
  "last_value ro [] = ro"
| "last_value ro ((cv, s1, r, s2) # tr) = last_value (Some r) tr"

text \<open>
  \<^verbatim>\<open>(while (car p) (setq p (cdr p)) (car (cdr p)))\<close>: its body, and the program that first
  binds \<^verbatim>\<open>p\<close> to the list of True, True, the value of the unbound \<^verbatim>\<open>zz\<close>, and 5.
\<close>

definition drain_body :: val where
  "drain_body =
     list_val [call ''setq'' [Symbol 0 ''p'', call ''cdr'' [Symbol 0 ''p'']],
               call ''car'' [call ''cdr'' [Symbol 0 ''p'']]]"

definition drain_example :: val where
  "drain_example =
     call ''progn''
       [call ''setq''
          [Symbol 0 ''p'',
           call ''cons''
             [True_val 0,
              call ''cons''
                [True_val 0,
                 call ''cons'' [Symbol 0 ''zz'', call ''cons'' [Integer 0 5, Nil_val 0]]]]],
        Cell 0 (Symbol 0 ''while'') (Cell 0 loop_cond drain_body)]"

text \<open>
  \<^verbatim>\<open>(progn (setq x 1) (fn g () x) (set (quote x) 2) (g))\<close>: a function that captures
  the environment before \<^verbatim>\<open>x\<close> is changed and is called after.
\<close>

definition closure_example :: val where
  "closure_example =
     call ''progn''
       [call ''setq'' [Symbol 0 ''x'', Integer 0 1],
        call ''fn'' [Symbol 0 ''g'', Nil_val 0, Symbol 0 ''x''],
        call ''set'' [call ''quote'' [Symbol 0 ''x''], Integer 0 2],
        call ''g'' []]"

section \<open>Properties\<close>

subsection \<open>The root environment\<close>

lemma root_frames:
  "frames root_state =
     [\<lparr>binds =
         [(''progn'', Builtin 0 NProgn), (''macro'', Builtin 0 NMacro),
          (''println'', Builtin 0 NPrintln), (''print'', Builtin 0 NPrint),
          (''while'', Builtin 0 NWhile), (''quote'', Builtin 0 NQuote),
          (''cons'', Builtin 0 NCons), (''setq'', Builtin 0 NSetq),
          (''set'', Builtin 0 NSet), (''car'', Builtin 0 NCar),
          (''cdr'', Builtin 0 NCdr), (''fn'', Builtin 0 NFn), (''if'', Builtin 0 NIf),
          (''+'', Builtin 0 NAdd), (''-'', Builtin 0 NSub), (''*'', Builtin 0 NMul),
          (''/'', Builtin 0 NDiv), (''='', Builtin 0 NEq), (''<'', Builtin 0 NLess)],
       parent = None\<rparr>]"
  by (simp add: root_state_def load_builtins_def add_builtin_def add_variable_def)

lemma root_stdout: "stdout root_state = []"
  by (simp add: root_state_def load_builtins_def add_builtin_def add_variable_def)

lemma root_find:
  "find_env (frames root_state) 0 ''quote'' = Some (0, 5)"
  "find_env (frames root_state) 0 ''cons'' = Some (0, 6)"
  "find_env (frames root_state) 0 ''car'' = Some (0, 9)"
  "find_env (frames root_state) 0 ''if'' = Some (0, 12)"
  "find_env (frames root_state) 0 ''+'' = Some (0, 13)"
  "find_env (frames root_state) 0 ''-'' = Some (0, 14)"
  "find_env (frames root_state) 0 ''='' = Some (0, 17)"
  "find_env (frames root_state) 0 ''<'' = Some (0, 18)"
  "find_env (frames root_state) 0 ''zz'' = None"
  by (simp_all add: find_env.simps root_frames)

lemma root_slot:
  "slot root_state (0, 5) = Builtin 0 NQuote"
  "slot root_state (0, 6) = Builtin 0 NCons"
  "slot root_state (0, 9) = Builtin 0 NCar"
  "slot root_state (0, 12) = Builtin 0 NIf"
  "slot root_state (0, 13) = Builtin 0 NAdd"
  "slot root_state (0, 14) = Builtin 0 NSub"
  "slot root_state (0, 17) = Builtin 0 NEq"
  "slot root_state (0, 18) = Builtin 0 NLess"
  by (simp_all add: slot_def root_frames)

lemma root_lookup:
  "lookup root_state 0 ''car'' = Some (Builtin 0 NCar)"
  "lookup root_state 0 ''cons'' = Some (Builtin 0 NCons)"
  "lookup root_state 0 ''quote'' = Some (Builtin 0 NQuote)"
  "lookup root_state 0 ''+'' = Some (Builtin 0 NAdd)"
  "lookup root_state 0 ''-'' = Some (Builtin 0 NSub)"
  "lookup root_state 0 ''<'' = Some (Builtin 0 NLess)"
  "lookup root_state 0 ''='' = Some (Builtin 0 NEq)"
  "lookup root_state 0 ''if'' = Some (Builtin 0 NIf)"
  by (simp_all add: lookup_def root_find root_slot)

lemma eval_symbol:
  "lookup s env x = Some v \<Longrightarrow> eval pv (Suc n) env (Symbol l x) s = Ok (v, s)"
  by (auto simp: lookup_def)

lemma eval_call_builtin:
  "lookup s env f = Some (Builtin lf b) \<Longrightarrow>
   eval pv (Suc (Suc n)) env (Cell l (Symbol l' f) args) s
     = call_builtin pv (Suc n) (eval pv (Suc n)) b env args s"
  by (subst eval.simps(2)) (simp add: eval_symbol del: eval.simps call_builtin.simps)

subsection \<open>Lists of integers\<close>

lemma int_args_Cell:
  "int_args (Cell l a d) = Some ns \<Longrightarrow>
     \<exists>la i ms. a = Integer la i \<and> int_args d = Some ms \<and> ns = i # ms"
  by (cases a) auto

lemma int_args_cases:
  assumes "int_args args = Some ns"
  shows "(\<exists>l. args = Nil_val l \<and> ns = []) \<or>
         (\<exists>l la i d ms. args = Cell l (Integer la i) d \<and> int_args d = Some ms \<and> ns = i # ms)"
  using assms by (cases args) (auto dest: int_args_Cell)

lemma leading_ints_cases:
  assumes "leading_ints args = Some (ns, b)"
  shows "(\<exists>l d. args = Cell l b d \<and> type_of b \<noteq> VAL_INT \<and> ns = []) \<or>
         (\<exists>l la i d ms. args = Cell l (Integer la i) d \<and> leading_ints d = Some (ms, b)
                         \<and> ns = i # ms)"
proof (cases args)
  case (Cell l a d)
  then show ?thesis using assms by (cases a) auto
qed (use assms in auto)

text \<open>A list of Integer values evaluates to itself and leaves the state as it was.\<close>

lemma eval_list_ints:
  "int_args list = Some ns \<Longrightarrow> eval_list (eval pv (Suc n)) env list s = Ok (list, s)"
proof (induction ns arbitrary: list)
  case Nil
  then show ?case using int_args_cases[of list "[]"] by auto
next
  case (Cons i ns)
  from int_args_cases[OF Cons.prems] obtain l la d where
    list: "list = Cell l (Integer la i) d" and d: "int_args d = Some ns" by auto
  have i: "eval pv (Suc n) env (Integer la i) s = Ok (Integer la i, s)" by simp
  have t: "type_of d \<noteq> VAL_ERROR" using d by (cases d) auto
  show ?case using Cons.IH[OF d] by (simp add: list i t del: eval.simps)
qed

lemma not_int_case:
  "type_of b \<noteq> VAL_INT \<Longrightarrow> (case b of Integer la i \<Rightarrow> f la i | _ \<Rightarrow> g) = g"
  by (cases b) auto

lemma fold_checked_Plus: "fold_checked Plus a ns = Some (foldl (+) a ns)"
  by (induction ns arbitrary: a) auto

lemma fold_checked_Minus: "fold_checked Minus a ns = Some (foldl (-) a ns)"
  by (induction ns arbitrary: a) auto

lemma fold_checked_Times: "fold_checked Times a ns = Some (foldl (*) a ns)"
  by (induction ns arbitrary: a) auto

subsection \<open>The comparison \<open><\<close>\<close>

lemma less_loop_rest:
  "int_args args = Some ns \<Longrightarrow>
   less_loop l args a False = Ok (if list_all (\<lambda>n. n <s a) ns then True_val l else Nil_val l)"
proof (induction ns arbitrary: args)
  case Nil
  then show ?case using int_args_cases[of args "[]"] by auto
next
  case (Cons n ns)
  from int_args_cases[OF Cons.prems] obtain l' la d where
    args: "args = Cell l' (Integer la n) d" and d: "int_args d = Some ns" by auto
  show ?case using Cons.IH[OF d] by (simp add: args signed.not_le)
qed

lemma less_loop_all:
  assumes "int_args args = Some ns"
  shows "less_loop l args 0 True =
         Ok (case ns of [] \<Rightarrow> True_val l
             | a # as \<Rightarrow> if list_all (\<lambda>n. n <s a) as then True_val l else Nil_val l)"
proof (cases ns)
  case Nil
  then show ?thesis using int_args_cases[OF assms] by auto
next
  case (Cons a as)
  with int_args_cases[OF assms] obtain l' la d where
    args: "args = Cell l' (Integer la a) d" and d: "int_args d = Some as" by auto
  show ?thesis by (simp add: args Cons less_loop_rest[OF d])
qed

text \<open>
  Claim C2. When the arguments of \<open><\<close> evaluate to a list of Integers, every later
  argument is compared with the first one only: the result is Nil when some later
  argument is greater than or equal to the first, and True otherwise (also for no
  argument and for one).
\<close>

theorem builtin_less_first_anchored:
  assumes "eval_list ev env v s = Ok (args, s1)" and "int_args args = Some ns"
  shows "builtin_less ev env v s =
         Ok (case ns of [] \<Rightarrow> True_val (loc_of v)
             | a # as \<Rightarrow> if list_all (\<lambda>n. n <s a) as then True_val (loc_of v)
                          else Nil_val (loc_of v), s1)"
  by (simp add: builtin_less_def assms(1) less_loop_all[OF assms(2)])

text \<open>\<^verbatim>\<open>(< 5 3 4)\<close> is True in the root environment, although 4 is greater than 3.\<close>

theorem builtin_less_first_anchored_witness:
  "eval_list (eval plain_printer 1) 0 (list_val [Integer 0 5, Integer 0 3, Integer 0 4])
      root_state
     = Ok (list_val [Integer 0 5, Integer 0 3, Integer 0 4], root_state)
   \<and> int_args (list_val [Integer 0 5, Integer 0 3, Integer 0 4]) = Some [5, 3, 4]
   \<and> eval plain_printer 2 0 (call ''<'' [Integer 0 5, Integer 0 3, Integer 0 4]) root_state
     = Ok (True_val 0, root_state)"
proof -
  let ?args = "list_val [Integer 0 5, Integer 0 3, Integer 0 4]"
  have e: "eval_list (eval plain_printer 1) 0 ?args root_state = Ok (?args, root_state)"
    by (simp add: list_val_def)
  have i: "int_args ?args = Some [5, 3, 4]"
    by (simp add: list_val_def)
  have "eval plain_printer 2 0 (call ''<'' [Integer 0 5, Integer 0 3, Integer 0 4]) root_state
      = builtin_less (eval plain_printer 1) 0 ?args root_state"
    unfolding call_def
    by (simp add: eval_nat_numeral eval_call_builtin[OF root_lookup(6)] del: eval.simps)
  then show ?thesis
    using builtin_less_first_anchored[OF e i] e i by (simp add: list_val_def)
qed

subsection \<open>Arithmetic\<close>

lemma arithmetic_loop_rest:
  "int_args args = Some ns \<Longrightarrow>
   arithmetic_loop X l args a False =
     (case fold_checked X a ns of Some r \<Rightarrow> Ok (Integer l r) | None \<Rightarrow> Undefined)"
proof (induction ns arbitrary: args a)
  case Nil
  then show ?case using int_args_cases[of args "[]"] by auto
next
  case (Cons n ns)
  from int_args_cases[OF Cons.prems] obtain l' la d where
    args: "args = Cell l' (Integer la n) d" and d: "int_args d = Some ns" by auto
  show ?case using Cons.IH[OF d] by (simp add: args split: option.splits)
qed

lemma arithmetic_loop_all:
  assumes "int_args args = Some ns"
  shows "arithmetic_loop X l args 0 True =
         (case ns of [] \<Rightarrow> Ok (Integer l 0)
          | a # as \<Rightarrow> (case fold_checked X a as of
                          Some r \<Rightarrow> Ok (Integer l r) | None \<Rightarrow> Undefined))"
proof (cases ns)
  case Nil
  then show ?thesis using int_args_cases[OF assms] by auto
next
  case (Cons a as)
  with int_args_cases[OF assms] obtain l' la d where
    args: "args = Cell l' (Integer la a) d" and d: "int_args d = Some as" by auto
  show ?thesis by (simp add: args Cons arithmetic_loop_rest[OF d])
qed

lemma ARITHMETIC_ints:
  assumes "eval_list ev env list s = Ok (args, s1)" and "int_args args = Some ns"
  shows "ARITHMETIC X ev env list s =
         (case ns of [] \<Rightarrow> Ok (Integer (loc_of list) 0, s1)
          | a # as \<Rightarrow> (case fold_checked X a as of
                          Some r \<Rightarrow> Ok (Integer (loc_of list) r, s1) | None \<Rightarrow> Undefined))"
  by (simp add: ARITHMETIC_def assms(1) arithmetic_loop_all[OF assms(2)]
           split: list.splits option.splits)

lemma fold_checked_Divide:
  "no_trap a ns \<Longrightarrow>
   fold_checked Divide a ns = Some (foldl (\<lambda>acc n. word_of_int (sint acc sdiv sint n)) a ns)"
  by (induction ns arbitrary: a) auto

lemma fold_checked_Divide_iff: "fold_checked Divide a ns \<noteq> None \<longleftrightarrow> no_trap a ns"
  by (induction ns arbitrary: a) auto

text \<open>
  Claim C3, as amended. When the arguments of \<open>+\<close>, \<open>-\<close>, \<open>*\<close> or \<open>/\<close> evaluate to a list
  of Integers, the result is the Integer obtained by folding the operator from the left
  over the arguments after the first, starting from the first argument; one argument is
  returned unchanged and no argument gives 0. \<open>+\<close>, \<open>-\<close> and \<open>*\<close> are those of 32-bit
  integers. For \<open>/\<close> the operator is signed division truncating towards zero, and the
  statement holds when no step of the fold divides by zero or divides the least integer
  by \<open>-1\<close>.
\<close>

theorem arithmetic_fold:
  assumes "eval_list ev env list s = Ok (args, s1)" and "int_args args = Some ns"
  shows "builtin_add ev env list s =
           Ok (Integer (loc_of list) (case ns of [] \<Rightarrow> 0 | a # as \<Rightarrow> foldl (+) a as), s1)
       \<and> builtin_sub ev env list s =
           Ok (Integer (loc_of list) (case ns of [] \<Rightarrow> 0 | a # as \<Rightarrow> foldl (-) a as), s1)
       \<and> builtin_mul ev env list s =
           Ok (Integer (loc_of list) (case ns of [] \<Rightarrow> 0 | a # as \<Rightarrow> foldl (*) a as), s1)
       \<and> ((case ns of [] \<Rightarrow> True | a # as \<Rightarrow> no_trap a as) \<longrightarrow>
           builtin_div ev env list s =
             Ok (Integer (loc_of list)
                   (case ns of [] \<Rightarrow> 0
                    | a # as \<Rightarrow> foldl (\<lambda>acc n. word_of_int (sint acc sdiv sint n)) a as), s1))"
  using ARITHMETIC_ints[OF assms, of Plus] ARITHMETIC_ints[OF assms, of Minus]
        ARITHMETIC_ints[OF assms, of Times] ARITHMETIC_ints[OF assms, of Divide]
  by (auto simp: builtin_add_def builtin_sub_def builtin_mul_def builtin_div_def
        fold_checked_Plus fold_checked_Minus fold_checked_Times fold_checked_Divide
        split: list.splits)

text \<open>
  In the root environment \<^verbatim>\<open>(+ 1 2 3)\<close> is 6, \<^verbatim>\<open>(- 10 1 2)\<close> is 7, \<^verbatim>\<open>(/ -7 2)\<close> is -3
  and \<^verbatim>\<open>(/ 100 5 2)\<close> is 10.
\<close>

theorem arithmetic_fold_witness:
  "eval_list (eval plain_printer 1) 0 (list_val [Integer 0 1, Integer 0 2, Integer 0 3]) root_state
     = Ok (list_val [Integer 0 1, Integer 0 2, Integer 0 3], root_state)
   \<and> int_args (list_val [Integer 0 1, Integer 0 2, Integer 0 3]) = Some [1, 2, 3]
   \<and> builtin_add (eval plain_printer 1) 0 (list_val [Integer 0 1, Integer 0 2, Integer 0 3])
        root_state = Ok (Integer 0 6, root_state)
   \<and> builtin_sub (eval plain_printer 1) 0 (list_val [Integer 0 10, Integer 0 1, Integer 0 2])
        root_state = Ok (Integer 0 7, root_state)
   \<and> eval plain_printer 2 0 (call ''+'' [Integer 0 1, Integer 0 2, Integer 0 3]) root_state
        = Ok (Integer 0 6, root_state)
   \<and> eval plain_printer 2 0 (call ''-'' [Integer 0 10, Integer 0 1, Integer 0 2]) root_state
        = Ok (Integer 0 7, root_state)
   \<and> int_args (list_val [Integer 0 (- 7), Integer 0 2]) = Some [- 7, 2]
   \<and> no_trap (- 7) [2]
   \<and> builtin_div (eval plain_printer 1) 0 (list_val [Integer 0 (- 7), Integer 0 2]) root_state
        = Ok (Integer 0 (- 3), root_state)
   \<and> no_trap 100 [5, 2]
   \<and> builtin_div (eval plain_printer 1) 0
        (list_val [Integer 0 100, Integer 0 5, Integer 0 2]) root_state
        = Ok (Integer 0 10, root_state)"
proof -
  let ?a = "list_val [Integer 0 1, Integer 0 2, Integer 0 3]"
  let ?b = "list_val [Integer 0 10, Integer 0 1, Integer 0 2]"
  let ?c = "list_val [Integer 0 (- 7), Integer 0 2]"
  let ?d = "list_val [Integer 0 100, Integer 0 5, Integer 0 2]"
  have ea: "eval_list (eval plain_printer 1) 0 ?a root_state = Ok (?a, root_state)"
    by (simp add: list_val_def)
  have eb: "eval_list (eval plain_printer 1) 0 ?b root_state = Ok (?b, root_state)"
    by (simp add: list_val_def)
  have ec: "eval_list (eval plain_printer 1) 0 ?c root_state = Ok (?c, root_state)"
    by (simp add: list_val_def)
  have ed: "eval_list (eval plain_printer 1) 0 ?d root_state = Ok (?d, root_state)"
    by (simp add: list_val_def)
  have ia: "int_args ?a = Some [1, 2, 3]" by (simp add: list_val_def)
  have ib: "int_args ?b = Some [10, 1, 2]" by (simp add: list_val_def)
  have ic: "int_args ?c = Some [- 7, 2]" by (simp add: list_val_def)
  have id: "int_args ?d = Some [100, 5, 2]" by (simp add: list_val_def)
  have la: "loc_of ?a = 0" and lb: "loc_of ?b = 0" and lc: "loc_of ?c = 0" and ld: "loc_of ?d = 0"
    by (simp_all add: list_val_def)
  have nc: "no_trap (- 7 :: 32 word) [2]" by simp
  have nd: "no_trap (100 :: 32 word) [5, 2]" by simp
  have add: "builtin_add (eval plain_printer 1) 0 ?a root_state = Ok (Integer 0 6, root_state)"
    using arithmetic_fold[OF ea ia] by (simp add: la)
  have sub: "builtin_sub (eval plain_printer 1) 0 ?b root_state = Ok (Integer 0 7, root_state)"
    using arithmetic_fold[OF eb ib] by (simp add: lb)
  have dc: "builtin_div (eval plain_printer 1) 0 ?c root_state = Ok (Integer 0 (- 3), root_state)"
    using arithmetic_fold[OF ec ic] nc by (simp add: lc)
  have dd: "builtin_div (eval plain_printer 1) 0 ?d root_state = Ok (Integer 0 10, root_state)"
    using arithmetic_fold[OF ed id] nd by (simp add: ld)
  have "eval plain_printer 2 0 (call ''+'' [Integer 0 1, Integer 0 2, Integer 0 3]) root_state
        = Ok (Integer 0 6, root_state)"
    using add unfolding call_def
    by (simp add: eval_nat_numeral eval_call_builtin[OF root_lookup(4)] del: eval.simps)
  moreover
  have "eval plain_printer 2 0 (call ''-'' [Integer 0 10, Integer 0 1, Integer 0 2]) root_state
        = Ok (Integer 0 7, root_state)"
    using sub unfolding call_def
    by (simp add: eval_nat_numeral eval_call_builtin[OF root_lookup(5)] del: eval.simps)
  ultimately show ?thesis using ea ia add sub ic nc dc nd dd by simp
qed

text \<open>
  The claim as stated fails for \<open>/\<close>: \<^verbatim>\<open>(/ 1 0)\<close> and \<^verbatim>\<open>(/ -2147483648 -1)\<close> have
  Integer arguments only, and the division traps: there is no result.
\<close>

theorem division_trap_counterexample:
  "int_args (list_val [Integer 0 1, Integer 0 0]) = Some [1, 0]
   \<and> eval plain_printer 2 0 (call ''/'' [Integer 0 1, Integer 0 0]) root_state = Undefined
   \<and> int_args (list_val [Integer 0 (- 2147483648), Integer 0 (- 1)])
       = Some [- 2147483648, - 1]
   \<and> eval plain_printer 2 0 (call ''/'' [Integer 0 (- 2147483648), Integer 0 (- 1)]) root_state
       = Undefined"
  by code_simp

subsection \<open>Arguments that are not integers\<close>

lemma arithmetic_loop_bad_rest:
  "leading_ints args = Some (ns, b) \<Longrightarrow>
   arithmetic_loop X l args a False =
     (case fold_checked X a ns of
        Some r \<Rightarrow> Ok (numeric_error (op_name X) b) | None \<Rightarrow> Undefined)"
proof (induction ns arbitrary: args a)
  case Nil
  then show ?case using leading_ints_cases[of args "[]" b] by (auto simp: not_int_case)
next
  case (Cons n ns)
  from leading_ints_cases[OF Cons.prems] obtain l' la d where
    args: "args = Cell l' (Integer la n) d" and d: "leading_ints d = Some (ns, b)" by auto
  show ?case using Cons.IH[OF d] by (simp add: args split: option.splits)
qed

lemma arithmetic_loop_bad:
  assumes "leading_ints args = Some (ns, b)"
  shows "arithmetic_loop X l args 0 True =
         (case ns of [] \<Rightarrow> Ok (numeric_error (op_name X) b)
          | a # as \<Rightarrow> (case fold_checked X a as of
                Some r \<Rightarrow> Ok (numeric_error (op_name X) b) | None \<Rightarrow> Undefined))"
proof (cases ns)
  case Nil
  then show ?thesis using leading_ints_cases[OF assms] by (auto simp: not_int_case)
next
  case (Cons a as)
  with leading_ints_cases[OF assms] obtain l' la d where
    args: "args = Cell l' (Integer la a) d" and d: "leading_ints d = Some (as, b)" by auto
  show ?thesis by (simp add: args Cons arithmetic_loop_bad_rest[OF d])
qed

lemma eq_loop_bad_rest:
  "leading_ints args = Some (ns, b) \<Longrightarrow>
   eq_loop l args a False =
     Ok (if list_all (\<lambda>n. n = a) ns then numeric_error ''='' b else Nil_val l)"
proof (induction ns arbitrary: args)
  case Nil
  then show ?case using leading_ints_cases[of args "[]" b] by (auto simp: not_int_case)
next
  case (Cons n ns)
  from leading_ints_cases[OF Cons.prems] obtain l' la d where
    args: "args = Cell l' (Integer la n) d" and d: "leading_ints d = Some (ns, b)" by auto
  show ?case using Cons.IH[OF d] by (simp add: args)
qed

lemma eq_loop_bad:
  assumes "leading_ints args = Some (ns, b)"
  shows "eq_loop l args 0 True =
         Ok (case ns of [] \<Rightarrow> numeric_error ''='' b
             | a # as \<Rightarrow> if list_all (\<lambda>n. n = a) as then numeric_error ''='' b else Nil_val l)"
proof (cases ns)
  case Nil
  then show ?thesis using leading_ints_cases[OF assms] by (auto simp: not_int_case)
next
  case (Cons a as)
  with leading_ints_cases[OF assms] obtain l' la d where
    args: "args = Cell l' (Integer la a) d" and d: "leading_ints d = Some (as, b)" by auto
  show ?thesis by (simp add: args Cons eq_loop_bad_rest[OF d])
qed

lemma less_loop_bad_rest:
  "leading_ints args = Some (ns, b) \<Longrightarrow>
   less_loop l args a False =
     Ok (if list_all (\<lambda>n. n <s a) ns then numeric_error ''<'' b else Nil_val l)"
proof (induction ns arbitrary: args)
  case Nil
  then show ?case using leading_ints_cases[of args "[]" b] by (auto simp: not_int_case)
next
  case (Cons n ns)
  from leading_ints_cases[OF Cons.prems] obtain l' la d where
    args: "args = Cell l' (Integer la n) d" and d: "leading_ints d = Some (ns, b)" by auto
  show ?case using Cons.IH[OF d] by (cases "a \<le>s n") (auto simp: args signed.not_le)
qed

lemma less_loop_bad:
  assumes "leading_ints args = Some (ns, b)"
  shows "less_loop l args 0 True =
         Ok (case ns of [] \<Rightarrow> numeric_error ''<'' b
             | a # as \<Rightarrow> if list_all (\<lambda>n. n <s a) as then numeric_error ''<'' b else Nil_val l)"
proof (cases ns)
  case Nil
  then show ?thesis using leading_ints_cases[OF assms] by (auto simp: not_int_case)
next
  case (Cons a as)
  with leading_ints_cases[OF assms] obtain l' la d where
    args: "args = Cell l' (Integer la a) d" and d: "leading_ints d = Some (as, b)" by auto
  show ?thesis by (simp add: args Cons less_loop_bad_rest[OF d])
qed

lemma ARITHMETIC_bad:
  assumes "eval_list ev env list s = Ok (args, s1)" and "leading_ints args = Some (ns, b)"
  shows "ARITHMETIC X ev env list s =
         (case ns of [] \<Rightarrow> Ok (numeric_error (op_name X) b, s1)
          | a # as \<Rightarrow> (case fold_checked X a as of
                Some r \<Rightarrow> Ok (numeric_error (op_name X) b, s1) | None \<Rightarrow> Undefined))"
  by (simp add: ARITHMETIC_def assms(1) arithmetic_loop_bad[OF assms(2)]
           split: list.splits option.splits)

text \<open>
  Claim C8, as amended. Let the arguments evaluate to a list whose first element that is
  not an Integer is \<open>b\<close>, after the Integers \<open>ns\<close>. Then \<open>+\<close>, \<open>-\<close> and \<open>*\<close> return the
  Error value that names the type of \<open>b\<close>; \<open>/\<close> does so when no division among \<open>ns\<close>
  traps; \<open>=\<close> does so when all of \<open>ns\<close> are equal to the first, and \<open><\<close> when all later
  ones are less than the first, and both return Nil otherwise, without looking at \<open>b\<close>.
\<close>

theorem type_error_on_first_non_integer:
  assumes "eval_list ev env list s = Ok (args, s1)" and "leading_ints args = Some (ns, b)"
  shows "builtin_add ev env list s = Ok (numeric_error ''+'' b, s1)
       \<and> builtin_sub ev env list s = Ok (numeric_error ''-'' b, s1)
       \<and> builtin_mul ev env list s = Ok (numeric_error ''*'' b, s1)
       \<and> ((case ns of [] \<Rightarrow> True | a # as \<Rightarrow> fold_checked Divide a as \<noteq> None) \<longrightarrow>
            builtin_div ev env list s = Ok (numeric_error ''/'' b, s1))
       \<and> builtin_eq ev env list s =
            Ok (if (case ns of [] \<Rightarrow> True | a # as \<Rightarrow> list_all (\<lambda>n. n = a) as)
                then numeric_error ''='' b else Nil_val (loc_of list), s1)
       \<and> builtin_less ev env list s =
            Ok (if (case ns of [] \<Rightarrow> True | a # as \<Rightarrow> list_all (\<lambda>n. n <s a) as)
                then numeric_error ''<'' b else Nil_val (loc_of list), s1)
       \<and> (\<forall>opn. numeric_error opn b =
            Error (loc_of b)
              (''builtin `'' @ opn @ [CHR 0x27] @ '' takes only numeric arguments (got `''
               @ TYPE_NAME (type_of b) @ [CHR 0x27] @ '')''))"
  using ARITHMETIC_bad[OF assms, of Plus] ARITHMETIC_bad[OF assms, of Minus]
        ARITHMETIC_bad[OF assms, of Times] ARITHMETIC_bad[OF assms, of Divide]
        eq_loop_bad[OF assms(2), of "loc_of list"] less_loop_bad[OF assms(2), of "loc_of list"]
  by (auto simp: builtin_add_def builtin_sub_def builtin_mul_def builtin_div_def
        builtin_eq_def builtin_less_def assms(1) numeric_error_def error_def
        fold_checked_Plus fold_checked_Minus fold_checked_Times split: list.splits)

text \<open>\<^verbatim>\<open>(+ 1 (quote x))\<close> and \<^verbatim>\<open>(/ 1 (quote x))\<close> give the Error that names the type Symbol.\<close>

theorem type_error_on_first_non_integer_witness:
  "eval_list (eval plain_printer 2) 0
      (list_val [Integer 0 1, call ''quote'' [Symbol 0 ''x'']]) root_state
     = Ok (list_val [Integer 0 1, Symbol 0 ''x''], root_state)
   \<and> leading_ints (list_val [Integer 0 1, Symbol 0 ''x'']) = Some ([1], Symbol 0 ''x'')
   \<and> fold_checked Divide 1 [] \<noteq> None
   \<and> builtin_add (eval plain_printer 2) 0
        (list_val [Integer 0 1, call ''quote'' [Symbol 0 ''x'']]) root_state
      = Ok (Error 0 (''builtin `+'' @ [CHR 0x27] @ '' takes only numeric arguments (got `Symbol''
                     @ [CHR 0x27] @ '')''), root_state)
   \<and> builtin_div (eval plain_printer 2) 0
        (list_val [Integer 0 1, call ''quote'' [Symbol 0 ''x'']]) root_state
      = Ok (Error 0 (''builtin `/'' @ [CHR 0x27] @ '' takes only numeric arguments (got `Symbol''
                     @ [CHR 0x27] @ '')''), root_state)"
proof -
  let ?l = "list_val [Integer 0 1, call ''quote'' [Symbol 0 ''x'']]"
  let ?r = "list_val [Integer 0 1, Symbol 0 ''x'']"
  have e: "eval_list (eval plain_printer 2) 0 ?l root_state = Ok (?r, root_state)"
    by code_simp
  have li: "leading_ints ?r = Some ([1], Symbol 0 ''x'')"
    by (simp add: list_val_def)
  show ?thesis
    using type_error_on_first_non_integer[OF e li] e li
    by (simp add: numeric_error_def error_def)
qed

text \<open>
  The claim as stated fails: the arguments of \<^verbatim>\<open>(= 1 2 (quote x))\<close> and of
  \<^verbatim>\<open>(< 1 2 (quote x))\<close> evaluate to a list that contains a Symbol, and both forms
  return Nil; in \<^verbatim>\<open>(/ 1 0 (quote x))\<close> the division by zero traps before the Symbol is
  looked at.
\<close>

theorem type_error_not_always_counterexample:
  "eval_list (eval plain_printer 2) 0
      (list_val [Integer 0 1, Integer 0 2, call ''quote'' [Symbol 0 ''x'']]) root_state
     = Ok (list_val [Integer 0 1, Integer 0 2, Symbol 0 ''x''], root_state)
   \<and> eval plain_printer 3 0
      (call ''='' [Integer 0 1, Integer 0 2, call ''quote'' [Symbol 0 ''x'']]) root_state
     = Ok (Nil_val 0, root_state)
   \<and> eval plain_printer 3 0
      (call ''<'' [Integer 0 1, Integer 0 2, call ''quote'' [Symbol 0 ''x'']]) root_state
     = Ok (Nil_val 0, root_state)
   \<and> eval plain_printer 3 0
      (call ''/'' [Integer 0 1, Integer 0 0, call ''quote'' [Symbol 0 ''x'']]) root_state
     = Undefined"
  by code_simp

subsection \<open>The conditional\<close>

text \<open>
  Claim C1, as amended. \<^verbatim>\<open>if\<close> evaluates the condition. When the condition evaluates
  to True, the result is the evaluation of the second form. In every other case, an
  Error value of the condition included, the result is that of the remaining forms
  evaluated as a \<^verbatim>\<open>progn\<close>; an Error of the branch that was run is the result.
\<close>

theorem builtin_if_branches:
  assumes "ev env c s = Ok (cv, s1)"
  shows "builtin_if ev env (Cell l c (Cell l' t els)) s =
         (if type_of cv = VAL_TRUE then ev env t s1 else progn ev env els s1)"
  by (simp add: builtin_if_def assms)

text \<open>The two branches, at a condition that is True and at one that is an Error value.\<close>

theorem builtin_if_branches_witness:
  "eval plain_printer 1 0 (True_val 0) root_state = Ok (True_val 0, root_state)
   \<and> builtin_if (eval plain_printer 1) 0
        (Cell 0 (True_val 0) (Cell 0 (Integer 0 1) (Cell 0 (Integer 0 2) (Nil_val 0)))) root_state
      = Ok (Integer 0 1, root_state)
   \<and> eval plain_printer 1 0 (Error 0 ''e'') root_state = Ok (Error 0 ''e'', root_state)
   \<and> builtin_if (eval plain_printer 1) 0
        (Cell 0 (Error 0 ''e'') (Cell 0 (Integer 0 1) (Cell 0 (Integer 0 2) (Nil_val 0)))) root_state
      = Ok (Integer 0 2, root_state)"
proof -
  have t: "eval plain_printer 1 0 (True_val 0) root_state = Ok (True_val 0, root_state)"
    by simp
  have e: "eval plain_printer 1 0 (Error 0 ''e'') root_state = Ok (Error 0 ''e'', root_state)"
    by simp
  show ?thesis
    using builtin_if_branches[of "eval plain_printer 1" 0 "True_val 0" root_state
            "True_val 0" root_state 0 0 "Integer 0 1" "Cell 0 (Integer 0 2) (Nil_val 0)"]
          builtin_if_branches[of "eval plain_printer 1" 0 "Error 0 ''e''" root_state
            "Error 0 ''e''" root_state 0 0 "Integer 0 1" "Cell 0 (Integer 0 2) (Nil_val 0)"]
          t e
    by simp
qed

text \<open>
  The claim as stated fails: in \<^verbatim>\<open>(if zz 1 2)\<close> the condition evaluates to an Error value
  (the symbol is unbound), and the form returns 2, the value of the else branch.
\<close>

theorem builtin_if_error_condition_counterexample:
  "eval plain_printer 2 0 (Symbol 0 ''zz'') root_state = Ok (unbound_zz, root_state)
   \<and> type_of unbound_zz = VAL_ERROR
   \<and> eval plain_printer 3 0 (call ''if'' [Symbol 0 ''zz'', Integer 0 1, Integer 0 2]) root_state
     = Ok (Integer 0 2, root_state)"
  by code_simp

subsection \<open>quote, cons and car\<close>

text \<open>
  Claim C9. \<^verbatim>\<open>quote\<close> returns its argument as it is, without evaluating it. The form
  \<^verbatim>\<open>(car (cons (quote x) (quote y)))\<close> is taken with arbitrary locations on all its cells
  and symbols. For all evaluators that run the built-in operators on \<^verbatim>\<open>(quote x)\<close>,
  \<^verbatim>\<open>(quote y)\<close> and \<^verbatim>\<open>(cons (quote x) (quote y))\<close>, \<^verbatim>\<open>car\<close> of the last form is \<open>x\<close>
  itself. With the evaluator of this file, in every environment where \<^verbatim>\<open>car\<close>,
  \<^verbatim>\<open>cons\<close> and \<^verbatim>\<open>quote\<close> name the built-in operators, the whole form evaluates to \<open>x\<close>
  and leaves the state as it was.
\<close>

theorem quote_cons_car_round_trip:
  "builtin_quote env (Cell l x rest) s = Ok (x, s)
   \<and> (ev' env (Cell c7 (Symbol c8 ''quote'') (Cell c9 x r1)) s
          = builtin_quote env (Cell c9 x r1) s
      \<and> ev' env (Cell c11 (Symbol c12 ''quote'') (Cell c13 y r2)) s
          = builtin_quote env (Cell c13 y r2) s
      \<and> ev env (Cell c4 (Symbol c5 ''cons'')
                  (Cell c6 (Cell c7 (Symbol c8 ''quote'') (Cell c9 x r1))
                     (Cell c10 (Cell c11 (Symbol c12 ''quote'') (Cell c13 y r2)) r3))) s
          = builtin_cons ev' env
              (Cell c6 (Cell c7 (Symbol c8 ''quote'') (Cell c9 x r1))
                 (Cell c10 (Cell c11 (Symbol c12 ''quote'') (Cell c13 y r2)) r3)) s
      \<longrightarrow> builtin_car ev env
            (Cell c3 (Cell c4 (Symbol c5 ''cons'')
                        (Cell c6 (Cell c7 (Symbol c8 ''quote'') (Cell c9 x r1))
                           (Cell c10 (Cell c11 (Symbol c12 ''quote'') (Cell c13 y r2)) r3)))
               r4) s
          = Ok (x, s))
   \<and> (lookup s env ''car'' = Some (Builtin l1 NCar)
      \<and> lookup s env ''cons'' = Some (Builtin l2 NCons)
      \<and> lookup s env ''quote'' = Some (Builtin l3 NQuote)
      \<longrightarrow> eval pv (Suc (Suc (Suc (Suc n)))) env
            (Cell c1 (Symbol c2 ''car'')
               (Cell c3 (Cell c4 (Symbol c5 ''cons'')
                           (Cell c6 (Cell c7 (Symbol c8 ''quote'') (Cell c9 x r1))
                              (Cell c10 (Cell c11 (Symbol c12 ''quote'') (Cell c13 y r2)) r3)))
                  r4)) s
          = Ok (x, s))"
proof (intro conjI impI)
  show "builtin_quote env (Cell l x rest) s = Ok (x, s)"
    by (simp add: builtin_quote_def)
next
  let ?qx = "Cell c7 (Symbol c8 ''quote'') (Cell c9 x r1)"
  let ?qy = "Cell c11 (Symbol c12 ''quote'') (Cell c13 y r2)"
  assume a: "ev' env ?qx s = builtin_quote env (Cell c9 x r1) s
      \<and> ev' env ?qy s = builtin_quote env (Cell c13 y r2) s
      \<and> ev env (Cell c4 (Symbol c5 ''cons'') (Cell c6 ?qx (Cell c10 ?qy r3))) s
          = builtin_cons ev' env (Cell c6 ?qx (Cell c10 ?qy r3)) s"
  then have qx: "ev' env ?qx s = Ok (x, s)" and qy: "ev' env ?qy s = Ok (y, s)"
    by (simp_all add: builtin_quote_def)
  have "builtin_cons ev' env (Cell c6 ?qx (Cell c10 ?qy r3)) s = Ok (cons x y, s)"
    by (simp add: builtin_cons_def eval_both_def qx qy)
  with a have "ev env (Cell c4 (Symbol c5 ''cons'') (Cell c6 ?qx (Cell c10 ?qy r3))) s
        = Ok (cons x y, s)"
    by simp
  then show "builtin_car ev env
               (Cell c3 (Cell c4 (Symbol c5 ''cons'') (Cell c6 ?qx (Cell c10 ?qy r3))) r4) s
             = Ok (x, s)"
    by (simp add: builtin_car_def cons_def)
next
  let ?qx = "Cell c7 (Symbol c8 ''quote'') (Cell c9 x r1)"
  let ?qy = "Cell c11 (Symbol c12 ''quote'') (Cell c13 y r2)"
  assume b: "lookup s env ''car'' = Some (Builtin l1 NCar)
      \<and> lookup s env ''cons'' = Some (Builtin l2 NCons)
      \<and> lookup s env ''quote'' = Some (Builtin l3 NQuote)"
  then have b1: "lookup s env ''car'' = Some (Builtin l1 NCar)"
    and b2: "lookup s env ''cons'' = Some (Builtin l2 NCons)"
    and b3: "lookup s env ''quote'' = Some (Builtin l3 NQuote)"
    by simp_all
  have q: "\<And>lc lf la z r m.
             eval pv (Suc (Suc m)) env (Cell lc (Symbol lf ''quote'') (Cell la z r)) s = Ok (z, s)"
    by (simp add: eval_call_builtin[OF b3] builtin_quote_def del: eval.simps)
  have c: "eval pv (Suc (Suc (Suc n))) env
             (Cell c4 (Symbol c5 ''cons'') (Cell c6 ?qx (Cell c10 ?qy r3))) s
           = Ok (cons x y, s)"
    by (simp add: q eval_call_builtin[OF b2] builtin_cons_def eval_both_def del: eval.simps)
  show "eval pv (Suc (Suc (Suc (Suc n)))) env
          (Cell c1 (Symbol c2 ''car'')
             (Cell c3 (Cell c4 (Symbol c5 ''cons'') (Cell c6 ?qx (Cell c10 ?qy r3))) r4)) s
        = Ok (x, s)"
    using c
    by (simp add: eval_call_builtin[OF b1] builtin_car_def cons_def del: eval.simps)
qed

text \<open>
  In the root environment \<^verbatim>\<open>(car (cons (quote a) (quote b)))\<close> is the symbol \<^verbatim>\<open>a\<close>, with
  the location it was read at; every node of the form has a location of its own.
\<close>

theorem quote_cons_car_round_trip_witness:
  "lookup root_state 0 ''car'' = Some (Builtin 0 NCar)
   \<and> lookup root_state 0 ''cons'' = Some (Builtin 0 NCons)
   \<and> lookup root_state 0 ''quote'' = Some (Builtin 0 NQuote)
   \<and> eval plain_printer 2 0
         (Cell 7 (Symbol 8 ''quote'') (Cell 9 (Symbol 20 ''a'') (Nil_val 21))) root_state
       = builtin_quote 0 (Cell 9 (Symbol 20 ''a'') (Nil_val 21)) root_state
   \<and> eval plain_printer 2 0
         (Cell 11 (Symbol 12 ''quote'') (Cell 13 (Symbol 22 ''b'') (Nil_val 23))) root_state
       = builtin_quote 0 (Cell 13 (Symbol 22 ''b'') (Nil_val 23)) root_state
   \<and> eval plain_printer 3 0
         (Cell 4 (Symbol 5 ''cons'')
            (Cell 6 (Cell 7 (Symbol 8 ''quote'') (Cell 9 (Symbol 20 ''a'') (Nil_val 21)))
               (Cell 10 (Cell 11 (Symbol 12 ''quote'') (Cell 13 (Symbol 22 ''b'') (Nil_val 23)))
                  (Nil_val 24)))) root_state
       = builtin_cons (eval plain_printer 2) 0
            (Cell 6 (Cell 7 (Symbol 8 ''quote'') (Cell 9 (Symbol 20 ''a'') (Nil_val 21)))
               (Cell 10 (Cell 11 (Symbol 12 ''quote'') (Cell 13 (Symbol 22 ''b'') (Nil_val 23)))
                  (Nil_val 24))) root_state
   \<and> builtin_car (eval plain_printer 3) 0
         (Cell 3 (Cell 4 (Symbol 5 ''cons'')
            (Cell 6 (Cell 7 (Symbol 8 ''quote'') (Cell 9 (Symbol 20 ''a'') (Nil_val 21)))
               (Cell 10 (Cell 11 (Symbol 12 ''quote'') (Cell 13 (Symbol 22 ''b'') (Nil_val 23)))
                  (Nil_val 24)))) (Nil_val 25)) root_state
       = Ok (Symbol 20 ''a'', root_state)
   \<and> eval plain_printer 4 0
         (Cell 1 (Symbol 2 ''car'')
           (Cell 3 (Cell 4 (Symbol 5 ''cons'')
              (Cell 6 (Cell 7 (Symbol 8 ''quote'') (Cell 9 (Symbol 20 ''a'') (Nil_val 21)))
                 (Cell 10 (Cell 11 (Symbol 12 ''quote'') (Cell 13 (Symbol 22 ''b'') (Nil_val 23)))
                    (Nil_val 24)))) (Nil_val 25))) root_state
       = Ok (Symbol 20 ''a'', root_state)"
proof -
  let ?qa = "Cell 7 (Symbol 8 ''quote'') (Cell 9 (Symbol 20 ''a'') (Nil_val 21))"
  let ?qb = "Cell 11 (Symbol 12 ''quote'') (Cell 13 (Symbol 22 ''b'') (Nil_val 23))"
  let ?args = "Cell 6 ?qa (Cell 10 ?qb (Nil_val 24))"
  have d1: "eval plain_printer 2 0 ?qa root_state
            = builtin_quote 0 (Cell 9 (Symbol 20 ''a'') (Nil_val 21)) root_state"
    by (simp add: eval_nat_numeral eval_call_builtin[OF root_lookup(3)] del: eval.simps)
  have d2: "eval plain_printer 2 0 ?qb root_state
            = builtin_quote 0 (Cell 13 (Symbol 22 ''b'') (Nil_val 23)) root_state"
    by (simp add: eval_nat_numeral eval_call_builtin[OF root_lookup(3)] del: eval.simps)
  have d3: "eval plain_printer 3 0 (Cell 4 (Symbol 5 ''cons'') ?args) root_state
            = builtin_cons (eval plain_printer 2) 0 ?args root_state"
    by (simp add: eval_nat_numeral eval_call_builtin[OF root_lookup(2)] del: eval.simps)
  note th = quote_cons_car_round_trip[where env = 0 and l = 0 and x = "Symbol 20 ''a''"
      and rest = "Nil_val 0" and s = root_state and ev = "eval plain_printer 3"
      and ev' = "eval plain_printer 2" and y = "Symbol 22 ''b''"
      and ?l1.0 = 0 and ?l2.0 = 0 and ?l3.0 = 0 and pv = plain_printer and n = 0
      and ?c1.0 = 1 and ?c2.0 = 2 and ?c3.0 = 3 and ?c4.0 = 4 and ?c5.0 = 5 and ?c6.0 = 6
      and ?c7.0 = 7 and ?c8.0 = 8 and ?c9.0 = 9 and ?c10.0 = 10 and ?c11.0 = 11
      and ?c12.0 = 12 and ?c13.0 = 13 and ?r1.0 = "Nil_val 21" and ?r2.0 = "Nil_val 23"
      and ?r3.0 = "Nil_val 24" and ?r4.0 = "Nil_val 25"]
  have r1: "builtin_car (eval plain_printer 3) 0
              (Cell 3 (Cell 4 (Symbol 5 ''cons'') ?args) (Nil_val 25)) root_state
            = Ok (Symbol 20 ''a'', root_state)"
    using th d1 d2 d3 by blast
  have r2: "eval plain_printer 4 0
              (Cell 1 (Symbol 2 ''car'')
                 (Cell 3 (Cell 4 (Symbol 5 ''cons'') ?args) (Nil_val 25))) root_state
            = Ok (Symbol 20 ''a'', root_state)"
    using th root_lookup(1) root_lookup(2) root_lookup(3)
    by (simp add: eval_nat_numeral del: eval.simps)
  show ?thesis
    by (intro conjI root_lookup(1) root_lookup(2) root_lookup(3) d1 d2 d3 r1 r2)
qed

subsection \<open>print and println\<close>

lemma print_loop_result:
  "print_loop pv l p out = Ok (r, out') \<Longrightarrow> type_of r \<noteq> VAL_ERROR \<Longrightarrow> r = Nil_val l"
  by (induction pv l p out rule: print_loop.induct) (auto split: prod.splits if_splits)

text \<open>
  Claim C10. Whatever \<^verbatim>\<open>print\<close> returns on some arguments, \<^verbatim>\<open>println\<close> returns the same
  value on them, and its output is that of \<^verbatim>\<open>print\<close> followed by one newline character,
  also when the value is an Error. A value returned by \<^verbatim>\<open>print\<close> that is not an Error
  is Nil.
\<close>

theorem println_is_print_then_newline:
  assumes "builtin_print pv ev env v s = Ok (r, s1)"
  shows "builtin_println pv ev env v s = Ok (r, s1\<lparr>stdout := stdout s1 @ [CHR 0x0A]\<rparr>)
       \<and> (type_of r \<noteq> VAL_ERROR \<longrightarrow> r = Nil_val (loc_of v))"
proof -
  have "type_of r \<noteq> VAL_ERROR \<longrightarrow> r = Nil_val (loc_of v)"
    using assms
    by (auto simp: builtin_print_def split: outcome.splits prod.splits if_splits
             dest: print_loop_result)
  then show ?thesis by (simp add: builtin_println_def assms)
qed

text \<open>\<^verbatim>\<open>(println 1)\<close> returns Nil, and \<^verbatim>\<open>(println zz)\<close> returns the Error after a newline.\<close>

theorem println_is_print_then_newline_witness:
  "builtin_print plain_printer (eval plain_printer 1) 0 (list_val [Integer 0 1]) root_state
     = Ok (Nil_val 0, root_state\<lparr>stdout := ''Integer''\<rparr>)
   \<and> builtin_println plain_printer (eval plain_printer 1) 0 (list_val [Integer 0 1]) root_state
     = Ok (Nil_val 0, root_state\<lparr>stdout := ''Integer'' @ [CHR 0x0A]\<rparr>)
   \<and> builtin_print plain_printer (eval plain_printer 1) 0 (list_val [Symbol 0 ''zz'']) root_state
     = Ok (Error 0 (''unbound symbol `zz'' @ [CHR 0x27]), root_state)
   \<and> builtin_println plain_printer (eval plain_printer 1) 0 (list_val [Symbol 0 ''zz''])
        root_state
     = Ok (Error 0 (''unbound symbol `zz'' @ [CHR 0x27]), root_state\<lparr>stdout := [CHR 0x0A]\<rparr>)"
proof -
  have p1: "builtin_print plain_printer (eval plain_printer 1) 0 (list_val [Integer 0 1])
              root_state = Ok (Nil_val 0, root_state\<lparr>stdout := ''Integer''\<rparr>)"
    by (simp add: builtin_print_def list_val_def plain_printer_def root_stdout)
  have p2: "builtin_print plain_printer (eval plain_printer 1) 0 (list_val [Symbol 0 ''zz''])
              root_state = Ok (Error 0 (''unbound symbol `zz'' @ [CHR 0x27]), root_state)"
    by (simp add: builtin_print_def list_val_def root_find error_def)
  show ?thesis
    using println_is_print_then_newline[OF p1] println_is_print_then_newline[OF p2] p1 p2
    by (simp add: root_stdout)
qed

subsection \<open>Building functions and macros\<close>

lemma check_params_not_cell: "type_of p \<noteq> VAL_CELL \<Longrightarrow> check_params p = None"
  by (cases p) auto

text \<open>
  Claim C4 is not met by the code: a parameter list \<open>p\<close> that is neither a cell nor the
  empty list is not list-shaped, and still \<^verbatim>\<open>macro\<close> returns a Macro value whose
  parameter list is \<open>p\<close>, and so does the anonymous form of \<^verbatim>\<open>fn\<close> with a Function
  value; no Error value is returned.
\<close>

theorem make_function_malformed_not_rejected:
  assumes "type_of p \<noteq> VAL_NIL" and "type_of p \<noteq> VAL_CELL"
  shows "\<not> IS_LIST p
       \<and> builtin_macro env (Cell l p body) s = Ok (Macro (loc_of body) p body env, s)
       \<and> (type_of p \<noteq> VAL_SYMBOL \<and> type_of body = VAL_CELL \<longrightarrow>
            builtin_fn env (Cell l p body) s = Ok (Function (loc_of body) p body env, s))"
  using assms
  by (cases p)
     (auto simp: IS_LIST_def builtin_macro_def builtin_fn_def make_function_def
        check_params_not_cell)

text \<open>\<^verbatim>\<open>(macro 5 x)\<close> and \<^verbatim>\<open>(fn 5 x)\<close> in the root environment.\<close>

theorem make_function_malformed_not_rejected_witness:
  "type_of (Integer 0 5) \<noteq> VAL_NIL \<and> type_of (Integer 0 5) \<noteq> VAL_CELL
   \<and> type_of (Integer 0 5) \<noteq> VAL_SYMBOL \<and> type_of (list_val [Symbol 0 ''x'']) = VAL_CELL
   \<and> \<not> IS_LIST (Integer 0 5)
   \<and> builtin_macro 0 (list_val [Integer 0 5, Symbol 0 ''x'']) root_state
      = Ok (Macro 0 (Integer 0 5) (list_val [Symbol 0 ''x'']) 0, root_state)
   \<and> builtin_fn 0 (list_val [Integer 0 5, Symbol 0 ''x'']) root_state
      = Ok (Function 0 (Integer 0 5) (list_val [Symbol 0 ''x'']) 0, root_state)"
proof -
  have g: "list_val [Integer 0 5, Symbol 0 ''x''] = Cell 0 (Integer 0 5) (list_val [Symbol 0 ''x''])"
    by (simp add: list_val_def)
  have c: "type_of (list_val [Symbol 0 ''x'']) = VAL_CELL" "loc_of (list_val [Symbol 0 ''x'']) = 0"
    by (simp_all add: list_val_def)
  show ?thesis
    unfolding g
    using make_function_malformed_not_rejected[of "Integer 0 5" 0 0 "list_val [Symbol 0 ''x'']"
            root_state] c
    by simp
qed

lemma macro_of_malformed_definition_evaluates:
  "eval plain_printer 2 0 (call ''macro'' [Integer 0 5, Symbol 0 ''x'']) root_state
     = Ok (Macro 0 (Integer 0 5) (list_val [Symbol 0 ''x'']) 0, root_state)"
  by code_simp

lemma check_params_error:
  "check_params ps = Some e \<Longrightarrow> type_of e = VAL_ERROR"
  by (induction ps rule: check_params.induct) (auto simp: error_def split: if_splits)

lemma make_function_non_symbol_parameter:
  "check_params ps = Some e \<Longrightarrow>
     builtin_macro env (Cell l ps body) s = Ok (e, s) \<and> type_of e = VAL_ERROR"
  by (simp add: builtin_macro_def make_function_def check_params_error)

subsection \<open>setq\<close>

text \<open>
  Claim C6. On an argument list \<^verbatim>\<open>(sym value)\<close>, \<^verbatim>\<open>setq\<close> is \<^verbatim>\<open>set\<close> on the list
  \<^verbatim>\<open>((quote sym) value)\<close>. The symbol is not evaluated: two evaluators that agree on
  the form \<^verbatim>\<open>(quote sym)\<close> and on the value expression give the same outcome, whatever
  they do on the symbol; and where \<^verbatim>\<open>(quote sym)\<close> evaluates to the symbol, \<^verbatim>\<open>setq\<close>
  evaluates the value expression and binds or updates the name.
\<close>

theorem setq_is_set_of_quoted:
  "builtin_setq ev env (Cell l (Symbol ls x) (Cell l' e rest)) s
     = builtin_set ev env
         (Cell ls (Cell ls (Symbol ls ''quote'') (Cell ls (Symbol ls x) (Nil_val ls)))
            (Cell l' e rest)) s
   \<and> ((\<forall>s0. ev' env (Cell ls (Symbol ls ''quote'') (Cell ls (Symbol ls x) (Nil_val ls))) s0
              = ev env (Cell ls (Symbol ls ''quote'') (Cell ls (Symbol ls x) (Nil_val ls))) s0)
       \<and> (\<forall>s0. ev' env e s0 = ev env e s0) \<longrightarrow>
         builtin_setq ev' env (Cell l (Symbol ls x) (Cell l' e rest)) s
           = builtin_setq ev env (Cell l (Symbol ls x) (Cell l' e rest)) s)
   \<and> (ev env (Cell ls (Symbol ls ''quote'') (Cell ls (Symbol ls x) (Nil_val ls))) s
         = Ok (Symbol ls x, s) \<longrightarrow>
         builtin_setq ev env (Cell l (Symbol ls x) (Cell l' e rest)) s = setq_spec ev env x e s)"
proof (intro conjI impI)
  show "builtin_setq ev env (Cell l (Symbol ls x) (Cell l' e rest)) s
     = builtin_set ev env
         (Cell ls (Cell ls (Symbol ls ''quote'') (Cell ls (Symbol ls x) (Nil_val ls)))
            (Cell l' e rest)) s"
    by (simp add: builtin_setq_def quote_def cons_def)
next
  assume "(\<forall>s0. ev' env (Cell ls (Symbol ls ''quote'') (Cell ls (Symbol ls x) (Nil_val ls))) s0
              = ev env (Cell ls (Symbol ls ''quote'') (Cell ls (Symbol ls x) (Nil_val ls))) s0)
       \<and> (\<forall>s0. ev' env e s0 = ev env e s0)"
  then show "builtin_setq ev' env (Cell l (Symbol ls x) (Cell l' e rest)) s
           = builtin_setq ev env (Cell l (Symbol ls x) (Cell l' e rest)) s"
    by (auto simp: builtin_setq_def builtin_set_def quote_def cons_def
           split: outcome.splits val.splits option.splits)
next
  assume "ev env (Cell ls (Symbol ls ''quote'') (Cell ls (Symbol ls x) (Nil_val ls))) s
         = Ok (Symbol ls x, s)"
  then show "builtin_setq ev env (Cell l (Symbol ls x) (Cell l' e rest)) s
         = setq_spec ev env x e s"
    by (auto simp: builtin_setq_def builtin_set_def setq_spec_def quote_def cons_def
           split: outcome.splits option.splits)
qed

text \<open>
  \<^verbatim>\<open>(setq x 1)\<close> in the root environment, also with an evaluator that has no outcome on
  the symbol \<^verbatim>\<open>x\<close>.
\<close>

theorem setq_is_set_of_quoted_witness:
  "trapping_on ''x'' (eval plain_printer 2) 0 (Symbol 0 ''x'') root_state = Undefined
   \<and> eval plain_printer 2 0 (call ''quote'' [Symbol 0 ''x'']) root_state
       = Ok (Symbol 0 ''x'', root_state)
   \<and> builtin_setq (eval plain_printer 2) 0 (list_val [Symbol 0 ''x'', Integer 0 1]) root_state
       = builtin_set (eval plain_printer 2) 0
           (list_val [call ''quote'' [Symbol 0 ''x''], Integer 0 1]) root_state
   \<and> builtin_setq (eval plain_printer 2) 0 (list_val [Symbol 0 ''x'', Integer 0 1]) root_state
       = Ok (Integer 0 1, with_binding ''x'' (Integer 0 1))
   \<and> builtin_setq (trapping_on ''x'' (eval plain_printer 2)) 0
         (list_val [Symbol 0 ''x'', Integer 0 1]) root_state
       = Ok (Integer 0 1, with_binding ''x'' (Integer 0 1))"
proof -
  let ?ev = "eval plain_printer 2"
  let ?Q = "Cell 0 (Symbol 0 ''quote'') (Cell 0 (Symbol 0 ''x'') (Nil_val 0))"
  have t: "trapping_on ''x'' ?ev 0 (Symbol 0 ''x'') root_state = Undefined"
    by (simp add: trapping_on_def)
  have q: "?ev 0 ?Q root_state = Ok (Symbol 0 ''x'', root_state)"
    by code_simp
  have a1: "\<forall>s0. trapping_on ''x'' ?ev 0 ?Q s0 = ?ev 0 ?Q s0"
    by (simp add: trapping_on_def)
  have a2: "\<forall>s0. trapping_on ''x'' ?ev 0 (Integer 0 1) s0 = ?ev 0 (Integer 0 1) s0"
    by (simp add: trapping_on_def)
  have sp: "setq_spec ?ev 0 ''x'' (Integer 0 1) root_state
            = Ok (Integer 0 1, with_binding ''x'' (Integer 0 1))"
    by code_simp
  have g1: "list_val [Symbol 0 ''x'', Integer 0 1]
            = Cell 0 (Symbol 0 ''x'') (Cell 0 (Integer 0 1) (Nil_val 0))"
    by (simp add: list_val_def)
  have g2: "list_val [?Q, Integer 0 1] = Cell 0 ?Q (Cell 0 (Integer 0 1) (Nil_val 0))"
    by (simp add: list_val_def)
  have g3: "call ''quote'' [Symbol 0 ''x''] = ?Q"
    by (simp add: list_val_def call_def)
  let ?L = "Cell 0 (Symbol 0 ''x'') (Cell 0 (Integer 0 1) (Nil_val 0))"
  note th = setq_is_set_of_quoted[where ev = ?ev and ev' = "trapping_on ''x'' ?ev" and env = 0
            and ls = 0 and x = "''x''" and s = root_state and l = 0 and l' = 0
            and e = "Integer 0 1" and rest = "Nil_val 0"]
  have c1: "builtin_setq ?ev 0 ?L root_state
            = builtin_set ?ev 0 (Cell 0 ?Q (Cell 0 (Integer 0 1) (Nil_val 0))) root_state"
    using th by (rule conjunct1)
  have c2: "builtin_setq (trapping_on ''x'' ?ev) 0 ?L root_state
            = builtin_setq ?ev 0 ?L root_state"
    using th a1 a2 by blast
  have c3: "builtin_setq ?ev 0 ?L root_state = setq_spec ?ev 0 ''x'' (Integer 0 1) root_state"
    using th q by blast
  have r1: "builtin_setq ?ev 0 ?L root_state
            = Ok (Integer 0 1, with_binding ''x'' (Integer 0 1))"
    by (rule trans[OF c3 sp])
  have r2: "builtin_setq (trapping_on ''x'' ?ev) 0 ?L root_state
            = Ok (Integer 0 1, with_binding ''x'' (Integer 0 1))"
    by (rule trans[OF c2 r1])
  show ?thesis
    unfolding g3 g1 g2 by (intro conjI t q c1 r1 r2)
qed

subsection \<open>The loop\<close>

lemma while_loop_continue:
  "ev env c s = Ok (cv, s1) \<Longrightarrow> type_of cv = VAL_TRUE \<Longrightarrow>
   progn ev env body s1 = Ok (r1, s2) \<Longrightarrow>
   while_loop (Suc k) ev env (Cell l c body) ro s
     = while_loop k ev env (Cell l c body) (Some r1) s2"
  by simp

lemma while_loop_exit:
  "ev env c s = Ok (cv, s1) \<Longrightarrow> type_of cv \<noteq> VAL_TRUE \<Longrightarrow>
   while_loop (Suc k) ev env (Cell l c body) ro s
     = (case ro of Some rv \<Rightarrow> Ok (rv, s1) | None \<Rightarrow> Undefined)"
  by simp

lemma while_loop_run:
  "iterations ev env c body s tr \<Longrightarrow>
   ev env c (end_state s tr) = Ok (cv, s') \<Longrightarrow> type_of cv \<noteq> VAL_TRUE \<Longrightarrow>
   while_loop (Suc (length tr + k)) ev env (Cell l c body) ro s
     = (case last_value ro tr of Some rv \<Rightarrow> Ok (rv, s') | None \<Rightarrow> Undefined)"
proof (induction tr arbitrary: s ro)
  case Nil
  then show ?case by (simp add: while_loop_exit del: while_loop.simps)
next
  case (Cons it tr)
  obtain cv1 s1 r1 s2 where it: "it = (cv1, s1, r1, s2)" by (cases it)
  from Cons.prems(1) have c1: "ev env c s = Ok (cv1, s1)" and t1: "type_of cv1 = VAL_TRUE"
    and b1: "progn ev env body s1 = Ok (r1, s2)" and rest: "iterations ev env c body s2 tr"
    by (simp_all add: it)
  from Cons.prems(2) have e: "ev env c (end_state s2 tr) = Ok (cv, s')"
    by (simp add: it)
  have "while_loop (Suc (length (it # tr) + k)) ev env (Cell l c body) ro s
        = while_loop (Suc (length tr + k)) ev env (Cell l c body) (Some r1) s2"
    using while_loop_continue[OF c1 t1 b1, of "Suc (length tr + k)" l ro] by simp
  also have "\<dots> = (case last_value (Some r1) tr of Some rv \<Rightarrow> Ok (rv, s') | None \<Rightarrow> Undefined)"
    by (rule Cons.IH[OF rest e Cons.prems(3)])
  finally show ?case by (simp add: it)
qed

lemma while_loop_result:
  "while_loop k ev env (Cell l c body) ro s = Ok (r, s') \<Longrightarrow>
   \<exists>tr cv. length tr < k \<and> iterations ev env c body s tr
          \<and> ev env c (end_state s tr) = Ok (cv, s') \<and> type_of cv \<noteq> VAL_TRUE
          \<and> last_value ro tr = Some r"
proof (induction k arbitrary: ro s)
  case 0
  then show ?case by simp
next
  case (Suc k)
  show ?case
  proof (cases "ev env c s")
    case (Ok p)
    obtain cv1 s1 where p: "p = (cv1, s1)" by (cases p)
    show ?thesis
    proof (cases "type_of cv1 = VAL_TRUE")
      case True
      show ?thesis
      proof (cases "progn ev env body s1")
        case (Ok q)
        obtain r1 s2 where q: "q = (r1, s2)" by (cases q)
        from Suc.prems have "while_loop k ev env (Cell l c body) (Some r1) s2 = Ok (r, s')"
          using \<open>ev env c s = Ok p\<close> p True Ok q by simp
        from Suc.IH[OF this] obtain tr cv where
          tr: "length tr < k" "iterations ev env c body s2 tr"
              "ev env c (end_state s2 tr) = Ok (cv, s')" "type_of cv \<noteq> VAL_TRUE"
              "last_value (Some r1) tr = Some r"
          by blast
        let ?tr = "(cv1, s1, r1, s2) # tr"
        have "length ?tr < Suc k" "iterations ev env c body s ?tr"
             "ev env c (end_state s ?tr) = Ok (cv, s')" "last_value ro ?tr = Some r"
          using tr \<open>ev env c s = Ok p\<close> p True Ok q by simp_all
        with tr(4) show ?thesis by blast
      next
        case Undefined
        then show ?thesis using Suc.prems \<open>ev env c s = Ok p\<close> p True by simp
      next
        case OutOfFuel
        then show ?thesis using Suc.prems \<open>ev env c s = Ok p\<close> p True by simp
      qed
    next
      case False
      from Suc.prems have "ro = Some r" "s1 = s'"
        using Ok p False by (auto split: option.splits)
      then have "length ([] :: iteration list) < Suc k" "iterations ev env c body s []"
           "ev env c (end_state s []) = Ok (cv1, s')" "last_value ro [] = Some r"
        using Ok p by simp_all
      with False show ?thesis by blast
    qed
  next
    case Undefined
    then show ?thesis using Suc.prems by simp
  next
    case OutOfFuel
    then show ?thesis using Suc.prems by simp
  qed
qed

lemma last_value_None: "last_value None tr = Some r \<Longrightarrow> tr \<noteq> []"
  by (cases tr) auto

text \<open>
  Claim C5, as amended. \<^verbatim>\<open>while\<close> evaluates the condition and, while it evaluates to
  True, evaluates the body as a \<^verbatim>\<open>progn\<close> and tests again, whatever the value of the
  body was, an Error value included. The loop ends the first time the condition
  evaluates to anything that is not True, an Error value included, and the result is then
  the value of the last evaluation of the body. So the loop returns \<open>r\<close> in state \<open>s'\<close>
  exactly when there is a run of one or more iterations from the start state, each with
  a True condition, after which the condition evaluates to a value that is not True in
  state \<open>s'\<close>, and \<open>r\<close> is the body value of the last iteration. The last two parts are
  the steps of the loop: one more turn after a True condition, and the exit.
\<close>

theorem while_result_is_last_body_value:
  "(builtin_while k ev env (Cell l c body) s = Ok (r, s') \<longleftrightarrow>
      (\<exists>tr cv. tr \<noteq> [] \<and> length tr < k \<and> iterations ev env c body s tr
          \<and> ev env c (end_state s tr) = Ok (cv, s') \<and> type_of cv \<noteq> VAL_TRUE
          \<and> last_value None tr = Some r))
   \<and> (ev env c s = Ok (cv1, s1) \<and> type_of cv1 = VAL_TRUE \<and>
      progn ev env body s1 = Ok (r1, s2) \<longrightarrow>
      while_loop (Suc k) ev env (Cell l c body) ro s
        = while_loop k ev env (Cell l c body) (Some r1) s2)
   \<and> (ev env c s = Ok (cv2, s3) \<and> type_of cv2 \<noteq> VAL_TRUE \<longrightarrow>
      while_loop (Suc k) ev env (Cell l c body) (Some rv) s = Ok (rv, s3))"
proof (intro conjI impI iffI)
  assume "builtin_while k ev env (Cell l c body) s = Ok (r, s')"
  then have "while_loop k ev env (Cell l c body) None s = Ok (r, s')"
    by (simp add: builtin_while_def)
  from while_loop_result[OF this] obtain tr cv where
    tr: "length tr < k" "iterations ev env c body s tr"
        "ev env c (end_state s tr) = Ok (cv, s')" "type_of cv \<noteq> VAL_TRUE"
        "last_value None tr = Some r"
    by blast
  with last_value_None[OF tr(5)]
  show "\<exists>tr cv. tr \<noteq> [] \<and> length tr < k \<and> iterations ev env c body s tr
          \<and> ev env c (end_state s tr) = Ok (cv, s') \<and> type_of cv \<noteq> VAL_TRUE
          \<and> last_value None tr = Some r"
    by blast
next
  assume "\<exists>tr cv. tr \<noteq> [] \<and> length tr < k \<and> iterations ev env c body s tr
          \<and> ev env c (end_state s tr) = Ok (cv, s') \<and> type_of cv \<noteq> VAL_TRUE
          \<and> last_value None tr = Some r"
  then obtain tr cv where
    tr: "length tr < k" "iterations ev env c body s tr"
        "ev env c (end_state s tr) = Ok (cv, s')" "type_of cv \<noteq> VAL_TRUE"
        "last_value None tr = Some r"
    by blast
  from tr(1) have k: "k = Suc (length tr + (k - Suc (length tr)))" by simp
  have "while_loop (Suc (length tr + (k - Suc (length tr)))) ev env (Cell l c body) None s
        = Ok (r, s')"
    using while_loop_run[OF tr(2) tr(3) tr(4), of "k - Suc (length tr)" l None] tr(5)
    by simp
  with k show "builtin_while k ev env (Cell l c body) s = Ok (r, s')"
    by (simp add: builtin_while_def)
next
  assume "ev env c s = Ok (cv1, s1) \<and> type_of cv1 = VAL_TRUE \<and>
      progn ev env body s1 = Ok (r1, s2)"
  then show "while_loop (Suc k) ev env (Cell l c body) ro s
        = while_loop k ev env (Cell l c body) (Some r1) s2"
    by (simp add: while_loop_continue)
next
  assume "ev env c s = Ok (cv2, s3) \<and> type_of cv2 \<noteq> VAL_TRUE"
  then show "while_loop (Suc k) ev env (Cell l c body) (Some rv) s = Ok (rv, s3)"
    by (simp add: while_loop_exit)
qed

text \<open>
  \<^verbatim>\<open>(while (car p) (setq p (cdr p)) (car (cdr p)))\<close> where \<^verbatim>\<open>p\<close> is the list of True, True,
  an Error value and 5: the first evaluation of the body yields the Error value, the
  loop goes on, the second yields 5, and then the condition is the Error value.
\<close>

theorem while_result_is_last_body_value_witness:
  "iterations (eval plain_printer 4) 0 loop_cond drain_body
       (with_binding ''p'' (list_val [True_val 0, True_val 0, unbound_zz, Integer 0 5]))
       [(True_val 0, with_binding ''p'' (list_val [True_val 0, True_val 0, unbound_zz, Integer 0 5]),
         unbound_zz, with_binding ''p'' (list_val [True_val 0, unbound_zz, Integer 0 5])),
        (True_val 0, with_binding ''p'' (list_val [True_val 0, unbound_zz, Integer 0 5]),
         Integer 0 5, with_binding ''p'' (list_val [unbound_zz, Integer 0 5]))]
   \<and> eval plain_printer 4 0 loop_cond (with_binding ''p'' (list_val [unbound_zz, Integer 0 5]))
       = Ok (unbound_zz, with_binding ''p'' (list_val [unbound_zz, Integer 0 5]))
   \<and> type_of unbound_zz \<noteq> VAL_TRUE
   \<and> builtin_while 3 (eval plain_printer 4) 0 (Cell 0 loop_cond drain_body)
        (with_binding ''p'' (list_val [True_val 0, True_val 0, unbound_zz, Integer 0 5]))
       = Ok (Integer 0 5, with_binding ''p'' (list_val [unbound_zz, Integer 0 5]))
   \<and> while_loop 3 (eval plain_printer 4) 0 (Cell 0 loop_cond drain_body) None
        (with_binding ''p'' (list_val [True_val 0, True_val 0, unbound_zz, Integer 0 5]))
       = while_loop 2 (eval plain_printer 4) 0 (Cell 0 loop_cond drain_body) (Some unbound_zz)
           (with_binding ''p'' (list_val [True_val 0, unbound_zz, Integer 0 5]))
   \<and> while_loop 1 (eval plain_printer 4) 0 (Cell 0 loop_cond drain_body) (Some (Integer 0 5))
        (with_binding ''p'' (list_val [unbound_zz, Integer 0 5]))
       = Ok (Integer 0 5, with_binding ''p'' (list_val [unbound_zz, Integer 0 5]))"
proof -
  let ?ev = "eval plain_printer 4"
  let ?s0 = "with_binding ''p'' (list_val [True_val 0, True_val 0, unbound_zz, Integer 0 5])"
  let ?s1 = "with_binding ''p'' (list_val [True_val 0, unbound_zz, Integer 0 5])"
  let ?s2 = "with_binding ''p'' (list_val [unbound_zz, Integer 0 5])"
  let ?tr = "[(True_val 0, ?s0, unbound_zz, ?s1), (True_val 0, ?s1, Integer 0 5, ?s2)]"
  have c0: "?ev 0 loop_cond ?s0 = Ok (True_val 0, ?s0)" by code_simp
  have b0: "progn ?ev 0 drain_body ?s0 = Ok (unbound_zz, ?s1)" by code_simp
  have c1: "?ev 0 loop_cond ?s1 = Ok (True_val 0, ?s1)" by code_simp
  have b1: "progn ?ev 0 drain_body ?s1 = Ok (Integer 0 5, ?s2)" by code_simp
  have c2: "?ev 0 loop_cond ?s2 = Ok (unbound_zz, ?s2)" by code_simp
  have ty: "type_of (True_val 0) = VAL_TRUE" "type_of unbound_zz \<noteq> VAL_TRUE"
    by (simp_all add: unbound_zz_def)
  have it: "iterations ?ev 0 loop_cond drain_body ?s0 ?tr"
    using c0 b0 c1 b1 by simp
  have e: "?ev 0 loop_cond (end_state ?s0 ?tr) = Ok (unbound_zz, ?s2)"
    using c2 by simp
  note th = while_result_is_last_body_value[where ev = ?ev and env = 0 and l = 0
      and c = loop_cond and body = drain_body]
  have run: "builtin_while 3 ?ev 0 (Cell 0 loop_cond drain_body) ?s0 = Ok (Integer 0 5, ?s2)"
  proof -
    have "\<exists>tr cv. tr \<noteq> [] \<and> length tr < 3 \<and> iterations ?ev 0 loop_cond drain_body ?s0 tr
          \<and> ?ev 0 loop_cond (end_state ?s0 tr) = Ok (cv, ?s2) \<and> type_of cv \<noteq> VAL_TRUE
          \<and> last_value None tr = Some (Integer 0 5)"
      using it e ty(2) by (intro exI[of _ ?tr] exI[of _ unbound_zz]) simp
    with th[where k = 3 and s = ?s0 and r = "Integer 0 5" and s' = ?s2] show ?thesis
      by blast
  qed
  have step: "while_loop 3 ?ev 0 (Cell 0 loop_cond drain_body) None ?s0
              = while_loop 2 ?ev 0 (Cell 0 loop_cond drain_body) (Some unbound_zz) ?s1"
    using th[where k = 2 and s = ?s0 and ?cv1.0 = "True_val 0" and ?s1.0 = ?s0
               and ?r1.0 = unbound_zz and ?s2.0 = ?s1 and ro = None] c0 b0 ty(1)
    by (simp add: eval_nat_numeral del: while_loop.simps)
  have exit: "while_loop 1 ?ev 0 (Cell 0 loop_cond drain_body) (Some (Integer 0 5)) ?s2
              = Ok (Integer 0 5, ?s2)"
    using th[where k = 0 and s = ?s2 and ?cv2.0 = unbound_zz and ?s3.0 = ?s2
               and rv = "Integer 0 5"] c2 ty(2)
    by (simp del: while_loop.simps)
  show ?thesis
    by (intro conjI it c2 ty(2) run step exit)
qed

text \<open>
  The claim as stated fails. In
  \<^verbatim>\<open>(progn (setq p (cons True 0)) (while (car p) (setq p (cons zz 1)) 7))\<close> the second
  evaluation of the condition yields an Error value, and the loop returns 7, not that
  Error. In
  \<^verbatim>\<open>(progn (setq p (cons True (cons True (cons zz (cons 5 ()))))) (while (car p) (setq p (cdr p)) (car (cdr p))))\<close>
  the first evaluation of the body yields an Error value; the loop does not end there,
  and returns 5.
\<close>

theorem while_error_condition_counterexample:
  "eval plain_printer 3 0 loop_cond (with_binding ''p'' (Cell 0 unbound_zz (Integer 0 1)))
     = Ok (unbound_zz, with_binding ''p'' (Cell 0 unbound_zz (Integer 0 1)))
   \<and> type_of unbound_zz = VAL_ERROR
   \<and> eval plain_printer 7 0 while_example root_state
     = Ok (Integer 0 7, with_binding ''p'' (Cell 0 unbound_zz (Integer 0 1)))
   \<and> progn (eval plain_printer 4) 0 drain_body
        (with_binding ''p'' (list_val [True_val 0, True_val 0, unbound_zz, Integer 0 5]))
     = Ok (unbound_zz, with_binding ''p'' (list_val [True_val 0, unbound_zz, Integer 0 5]))
   \<and> eval plain_printer 9 0 drain_example root_state
     = Ok (Integer 0 5, with_binding ''p'' (list_val [unbound_zz, Integer 0 5]))"
  by code_simp

subsection \<open>set and the binding frames\<close>














text \<open>
  A function that captured the environment before \<^verbatim>\<open>set\<close> changed \<^verbatim>\<open>x\<close> reads the new
  value when it is called afterwards.
\<close>

lemma set_visible_through_closure:
  "(case eval plain_printer 6 0 closure_example root_state of
      Ok (r, s') \<Rightarrow> r = Integer 0 2 \<and> lookup s' 0 ''x'' = Some (Integer 0 2)
    | _ \<Rightarrow> False)"
  by code_simp

end
